(* ===== verification/Prelude.thy ===== *)
theory Prelude
  imports Main "HOL-Library.Sublist"
begin

text \<open>
  Shared vocabulary of the development: the names of the model's basic types, the two
  JavaScript comparisons against a possibly \<open>undefined\<close> number that the request loop
  of \<open>src/main.js\<close> relies on, the collection \<open>effect_simps\<close> into which every
  theory puts the equations of its effect primitives, and generic lemmas on lists and
  options that the component proofs share.
\<close>

named_theorems effect_simps "equations of the effect primitives (HTTP call, sleep, log, save)"

type_synonym addr = string \<comment> \<open>a wallet address, the key of every persisted record\<close>
type_synonym ms = int \<comment> \<open>a JavaScript timestamp or duration in milliseconds\<close>

subsection \<open>JavaScript comparisons with undefined\<close>

text \<open>
  In \<open>makeRequest\<close> the retry budget \<open>retries\<close> is read from the options object; a
  caller that passes an options object without that field leaves it \<open>undefined\<close>.
  In JavaScript every ordering comparison with \<open>undefined\<close> (which converts to
  \<open>NaN\<close>) is false. The budget is therefore a \<open>nat option\<close>, and the two comparisons
  the loop makes are written out.
\<close>

definition js_gt :: "nat \<Rightarrow> nat option \<Rightarrow> bool" where
  "js_gt c r = (case r of None \<Rightarrow> False | Some k \<Rightarrow> k < c)"

definition js_le :: "nat \<Rightarrow> nat option \<Rightarrow> bool" where
  "js_le c r = (case r of None \<Rightarrow> False | Some k \<Rightarrow> c \<le> k)"

lemma js_gt_simps [simp]:
  "js_gt c None = False" "js_gt c (Some k) = (k < c)"
  by (simp_all add: js_gt_def)

lemma js_le_simps [simp]:
  "js_le c None = False" "js_le c (Some k) = (c \<le> k)"
  by (simp_all add: js_le_def)

text \<open>The two comparisons are complementary only when the budget is defined.\<close>

lemma js_le_not_gt: "r \<noteq> None \<Longrightarrow> js_le c r = (\<not> js_gt c r)"
  by (cases r) auto

subsection \<open>Lists\<close>

lemma length_filter_append_single:
  "length (filter P (xs @ [x])) = length (filter P xs) + (if P x then 1 else 0)"
  by simp

lemma find_Some_member: "find P xs = Some x \<Longrightarrow> x \<in> set xs \<and> P x"
  by (induction xs) (auto split: if_splits)

lemma find_None_iff': "find P xs = None \<longleftrightarrow> (\<forall>x\<in>set xs. \<not> P x)"
  by (induction xs) auto

end
