(* ===== verification/Http.thy ===== *)
theory Http
  imports Prelude
begin

text \<open>
  The data the account runner of \<open>src/main.js\<close> exchanges with the remote API and the
  effects it has on the process: the tokens and the persisted session object, the
  requests (endpoint, method, authorization header, body), the answers of the transport
  (\<open>axios\<close>: a response with a status and a body, or a thrown error with an optional
  status), the observable events (HTTP calls, sleeps, log lines, snapshot writes, timers)
  and the world state they act on. The remote server is a parameter: a function from the
  index of a call and the request to the answer, so that a theorem quantified over the
  server holds for every behaviour of the remote API.
\<close>

subsection \<open>Tokens and the persisted session object\<close>

text \<open>
  A JWT is opaque except for its expiry claim, which the client reads without contacting
  the server (\<open>isTokenExpired\<close> of \<open>utils.js\<close>). The expiry is kept in milliseconds.
\<close>

datatype token = Token (tok_id: nat) (tok_exp: ms)

text \<open>
  The object stored in \<open>localStorage.json\<close> under an address, and read back into
  \<open>authInfo\<close>. Login and refresh answer \<open>{accessToken, refreshToken}\<close>;
  \<open>runAccount\<close> reads the field \<open>token\<close>; \<open>handleCheckin\<close> adds
  \<open>latestCheckin\<close>. An absent field is \<open>None\<close>.
\<close>

record auth_info =
  ai_access :: "token option"
  ai_refresh :: "token option"
  ai_token :: "token option"
  ai_latest :: "ms option"

definition empty_auth :: auth_info where
  "empty_auth = \<lparr>ai_access = None, ai_refresh = None, ai_token = None, ai_latest = None\<rparr>"

subsection \<open>Requests and answers\<close>

datatype http_method = GET | POST

text \<open>
  The endpoints below \<open>baseURL\<close> that the client calls (one per wrapper method), and
  the IP echo service \<open>api.ipify.org\<close> that \<open>checkProxyIP\<close> probes.
\<close>

datatype endpoint =
    EpLogin | EpBandwidth | EpRefresh | EpRefStats | EpPointInfo | EpProfile
  | EpTasks | EpTasksDaily | EpTasksCompleted | EpCompleteTask nat | EpCompleteDaily | EpIpify

datatype auth_header = NoAuthHeader | Bearer "token option"

datatype req_body = NoBody | LoginBody addr string | RefreshBody "token option"

record request =
  rq_method :: http_method
  rq_endpoint :: endpoint
  rq_auth :: auth_header
  rq_body :: req_body

text \<open>A task of \<open>/v1/tasks/\<close> or \<open>/v1/tasks/daily\<close>; \<open>status\<close> 0 or 1.\<close>

record task =
  taskId :: nat
  title :: string
  tstatus :: int

text \<open>
  The body of an answer, as far as the client reads it: the token object, a list of
  tasks, an object carrying \<open>statusCode\<close>, an object the client only logs (profile,
  points), the \<open>{ip}\<close> answer of the IP echo service, \<open>null\<close>, or an envelope \<open>{data: \<dots>}\<close> that \<open>makeRequest\<close> unwraps.
\<close>

datatype body =
    BAuth auth_info
  | BTasks "task list"
  | BCode "int option"
  | BProfile
  | BPoints
  | BIp string
  | BNull
  | BEnvelope body

datatype http_result = HOk int body | HErr "int option" string

type_synonym server = "nat \<Rightarrow> request \<Rightarrow> http_result"

subsection \<open>Events and the world\<close>

datatype log_type = LInfo | LSuccess | LWarning | LError | LCustom

datatype job = CheckPointJob nat | HeartBeatJob nat

datatype event =
    EHttp request
  | ESleep nat
  | ELog log_type
  | ESave addr auth_info
  | ESetInterval job nat

text \<open>
  The state shared by all accounts of the process: the number of HTTP calls made so far
  (the server's clock), the wall clock in milliseconds, the trace of events, the file
  \<open>localStorage.json\<close> as written by \<open>saveJson\<close>, and the global array
  \<open>intervalIds\<close> of running timers.
\<close>

record world =
  w_calls :: nat
  w_clock :: ms
  w_events :: "event list"
  w_store :: "addr \<Rightarrow> auth_info option"
  w_intervals :: "job list"

subsection \<open>Effect primitives\<close>

definition exec_http :: "server \<Rightarrow> request \<Rightarrow> 'a world_scheme \<Rightarrow> http_result \<times> 'a world_scheme" where
  "exec_http srv rq s =
     (srv (w_calls s) rq, s\<lparr>w_calls := Suc (w_calls s), w_events := w_events s @ [EHttp rq]\<rparr>)"

definition sleep :: "nat \<Rightarrow> 'a world_scheme \<Rightarrow> 'a world_scheme" where
  "sleep n s = s\<lparr>w_clock := w_clock s + 1000 * int n, w_events := w_events s @ [ESleep n]\<rparr>"

definition log :: "log_type \<Rightarrow> 'a world_scheme \<Rightarrow> 'a world_scheme" where
  "log ty s = s\<lparr>w_events := w_events s @ [ELog ty]\<rparr>"

definition saveJson :: "addr \<Rightarrow> auth_info \<Rightarrow> 'a world_scheme \<Rightarrow> 'a world_scheme" where
  "saveJson k v s = s\<lparr>w_store := (w_store s)(k \<mapsto> v), w_events := w_events s @ [ESave k v]\<rparr>"

definition isTokenExpired :: "ms \<Rightarrow> token option \<Rightarrow> bool" where
  "isTokenExpired now t = (case t of None \<Rightarrow> True | Some tk \<Rightarrow> tok_exp tk \<le> now)"

text \<open>The colour \<open>log\<close> prints a line in, by its \<open>type\<close> argument.\<close>

datatype colour = Green | Red | Yellow | Magenta | Blue

fun log_colour :: "log_type \<Rightarrow> colour" where
  "log_colour LSuccess = Green"
| "log_colour LError = Red"
| "log_colour LWarning = Yellow"
| "log_colour LCustom = Magenta"
| "log_colour LInfo = Blue"

subsection \<open>Counting calls\<close>

fun is_http :: "event \<Rightarrow> bool" where
  "is_http (EHttp _) = True"
| "is_http _ = False"

fun is_sleep :: "event \<Rightarrow> nat \<Rightarrow> bool" where
  "is_sleep (ESleep n) k = (n = k)"
| "is_sleep _ k = False"

definition http_requests :: "event list \<Rightarrow> request list" where
  "http_requests es = [rq. EHttp rq \<leftarrow> es]"

text \<open>
  The world invariant: the server's call counter is the number of HTTP events of the
  trace. Every operation of the development keeps it, so the index a server sees is the
  position of the request in the trace.
\<close>

definition calls_inv :: "'a world_scheme \<Rightarrow> bool" where
  "calls_inv s \<longleftrightarrow> w_calls s = length (http_requests (w_events s))"

text \<open>
  A state \<open>s'\<close> extends \<open>s\<close> when its trace is the trace of \<open>s\<close> followed by new
  events and the call counter has advanced by the number of HTTP events among them.
\<close>

definition trace_ext :: "'a world_scheme \<Rightarrow> 'b world_scheme \<Rightarrow> bool" where
  "trace_ext s s' \<longleftrightarrow>
     (\<exists>es. w_events s' = w_events s @ es \<and> w_calls s' = w_calls s + length (http_requests es))"

lemmas effect_defs = exec_http_def sleep_def log_def saveJson_def

lemma http_requests_append [simp]:
  "http_requests (es @ es') = http_requests es @ http_requests es'"
  by (simp add: http_requests_def)

lemma http_requests_simps [simp]:
  "http_requests [] = []" "http_requests (EHttp rq # es) = rq # http_requests es"
  "http_requests (ESleep n # es) = http_requests es" "http_requests (ELog ty # es) = http_requests es"
  "http_requests (ESave k v # es) = http_requests es"
  "http_requests (ESetInterval j p # es) = http_requests es"
  by (simp_all add: http_requests_def)

lemma exec_http_fst [effect_simps]: "fst (exec_http srv rq s) = srv (w_calls s) rq"
  by (simp add: exec_http_def)

lemma effects_w_calls [effect_simps]:
  "w_calls (snd (exec_http srv rq s)) = Suc (w_calls s)"
  "w_calls (sleep n s) = w_calls s" "w_calls (log ty s) = w_calls s"
  "w_calls (saveJson k v s) = w_calls s"
  by (simp_all add: exec_http_def sleep_def log_def saveJson_def)

lemma effects_w_clock [effect_simps]:
  "w_clock (snd (exec_http srv rq s)) = w_clock s"
  "w_clock (sleep n s) = w_clock s + 1000 * int n" "w_clock (log ty s) = w_clock s"
  "w_clock (saveJson k v s) = w_clock s"
  by (simp_all add: exec_http_def sleep_def log_def saveJson_def)

lemma effects_w_events [effect_simps]:
  "w_events (snd (exec_http srv rq s)) = w_events s @ [EHttp rq]"
  "w_events (sleep n s) = w_events s @ [ESleep n]" "w_events (log ty s) = w_events s @ [ELog ty]"
  "w_events (saveJson k v s) = w_events s @ [ESave k v]"
  by (simp_all add: exec_http_def sleep_def log_def saveJson_def)

lemma effects_w_store [effect_simps]:
  "w_store (snd (exec_http srv rq s)) = w_store s"
  "w_store (sleep n s) = w_store s" "w_store (log ty s) = w_store s"
  "w_store (saveJson k v s) = (w_store s)(k \<mapsto> v)"
  by (simp_all add: exec_http_def sleep_def log_def saveJson_def)

lemma effects_w_intervals [effect_simps]:
  "w_intervals (snd (exec_http srv rq s)) = w_intervals s"
  "w_intervals (sleep n s) = w_intervals s" "w_intervals (log ty s) = w_intervals s"
  "w_intervals (saveJson k v s) = w_intervals s"
  by (simp_all add: exec_http_def sleep_def log_def saveJson_def)

lemma effects_calls_inv [intro]:
  "calls_inv s \<Longrightarrow> calls_inv (snd (exec_http srv rq s))"
  "calls_inv s \<Longrightarrow> calls_inv (sleep n s)" "calls_inv s \<Longrightarrow> calls_inv (log ty s)"
  "calls_inv s \<Longrightarrow> calls_inv (saveJson k v s)"
  by (simp_all add: calls_inv_def effect_simps)

lemma trace_ext_refl [intro, simp]: "trace_ext s s"
  by (auto simp: trace_ext_def)

lemma trace_ext_trans [trans]: "trace_ext s1 s2 \<Longrightarrow> trace_ext s2 s3 \<Longrightarrow> trace_ext s1 s3"
  by (force simp: trace_ext_def)

lemma trace_ext_effects [intro, simp]:
  "trace_ext s (snd (exec_http srv rq s))" "trace_ext s (sleep n s)" "trace_ext s (log ty s)"
  "trace_ext s (saveJson k v s)"
  by (auto simp: trace_ext_def effect_defs)

lemma trace_ext_effects_left:
  "trace_ext (snd (exec_http srv rq s)) s' \<Longrightarrow> trace_ext s s'"
  "trace_ext (sleep n s) s' \<Longrightarrow> trace_ext s s'" "trace_ext (log ty s) s' \<Longrightarrow> trace_ext s s'"
  "trace_ext (saveJson k v s) s' \<Longrightarrow> trace_ext s s'"
  by (meson trace_ext_trans trace_ext_effects)+

lemma trace_ext_effects_right:
  "trace_ext s s' \<Longrightarrow> trace_ext s (snd (exec_http srv rq s'))"
  "trace_ext s s' \<Longrightarrow> trace_ext s (sleep n s')" "trace_ext s s' \<Longrightarrow> trace_ext s (log ty s')"
  "trace_ext s s' \<Longrightarrow> trace_ext s (saveJson k v s')"
  by (meson trace_ext_trans trace_ext_effects)+

lemma trace_ext_calls_inv: "trace_ext s s' \<Longrightarrow> calls_inv s \<Longrightarrow> calls_inv s'"
  by (auto simp: trace_ext_def calls_inv_def)

end
