(* ===== verification/Session.thy ===== *)
theory Session
  imports Http
begin

text \<open>
  The \<open>ClientAPI\<close> object of \<open>src/main.js\<close> as a record extending the world, and its
  request pipeline (\<open>makeRequest\<close>) and token lifecycle (\<open>getValidToken\<close>,
  \<open>auth\<close>, \<open>getRefereshToken\<close>). The two call each other: an answer 401 makes
  \<open>makeRequest\<close> call \<open>getValidToken(true)\<close>, which calls \<open>makeRequest\<close> for the
  refresh or login endpoint, and then \<open>makeRequest\<close> calls itself again. Nothing bounds
  this recursion in the source, so the six routines are the operations (datatype
  \<open>call\<close>) of one interpreter \<open>run\<close> with a fuel argument: \<open>None\<close> is "has not
  returned within this much recursion". Each call of a routine and each iteration of the
  retry loop spends one unit. The theory proves how much fuel is enough when the server
  never answers 401, that more fuel never changes a result, and that with a server that
  always answers 401 no amount of fuel is enough.
\<close>

subsection \<open>Configuration and the client object\<close>

text \<open>The fields of \<open>config/config.js\<close> that the runner reads.\<close>

record settings =
  USE_PROXY :: bool
  AUTO_TASK :: bool
  AUTO_MINING :: bool
  SKIP_TASKS :: "nat list"
  MAX_THEADS :: nat
  MAX_THEADS_NO_PROXY :: nat
  REF_CODE :: string

record client = world +
  c_cfg :: settings
  c_address :: addr
  c_index :: nat
  c_proxy :: "string option"
  c_proxy_ip :: "string option"
  c_session :: addr
  c_token :: "token option"
  c_auth :: auth_info
  c_local :: "addr \<Rightarrow> auth_info option"

subsection \<open>Options, headers, answers\<close>

text \<open>
  The options object of \<open>makeRequest\<close>. Its default \<open>{retries: 2, isAuth: false,
  refreshToken: null}\<close> applies only when the caller passes no options at all; a caller
  that passes an object without \<open>retries\<close> leaves the budget undefined.
\<close>

record req_opts =
  o_retries :: "nat option"
  o_isAuth :: bool
  o_refresh :: "token option"

definition default_opts :: req_opts where
  "default_opts = \<lparr>o_retries = Some 2, o_isAuth = False, o_refresh = None\<rparr>"

definition given_opts :: "bool \<Rightarrow> token option \<Rightarrow> req_opts" where
  "given_opts isAuth rt = \<lparr>o_retries = None, o_isAuth = isAuth, o_refresh = rt\<rparr>"

definition build_auth :: "req_opts \<Rightarrow> token option \<Rightarrow> auth_header" where
  "build_auth opts tk =
     (case o_refresh opts of
        Some rt \<Rightarrow> Bearer (Some rt)
      | None \<Rightarrow> (if o_isAuth opts then NoAuthHeader else Bearer tk))"

definition mk_request :: "endpoint \<Rightarrow> http_method \<Rightarrow> req_body \<Rightarrow> req_opts \<Rightarrow> token option \<Rightarrow> request" where
  "mk_request ep m pl opts tk =
     \<lparr>rq_method = m, rq_endpoint = ep, rq_auth = build_auth opts tk,
      rq_body = (if m = GET then NoBody else pl)\<rparr>"

text \<open>The object \<open>{success, status, data, error}\<close> that \<open>makeRequest\<close> returns.\<close>

record resp =
  r_success :: bool
  r_status :: "int option"
  r_data :: "body option"
  r_error :: "string option"

definition unwrap_body :: "body \<Rightarrow> body" where
  "unwrap_body b = (case b of BEnvelope inner \<Rightarrow> (if inner = BNull then b else inner) | _ \<Rightarrow> b)"

definition ok_resp :: "int \<Rightarrow> body \<Rightarrow> resp" where
  "ok_resp st b = \<lparr>r_success = True, r_status = Some st, r_data = Some (unwrap_body b), r_error = None\<rparr>"

definition fail_resp :: "int option \<Rightarrow> string \<Rightarrow> resp" where
  "fail_resp st msg = \<lparr>r_success = False, r_status = st, r_data = None, r_error = Some msg\<rparr>"

text \<open>\<open>result.data?.accessToken\<close>: the access token of a token object, if any.\<close>

definition body_access :: "body option \<Rightarrow> token option" where
  "body_access d = (case d of Some (BAuth ai) \<Rightarrow> ai_access ai | _ \<Rightarrow> None)"

definition body_auth :: "body option \<Rightarrow> auth_info" where
  "body_auth d = (case d of Some (BAuth ai) \<Rightarrow> ai | _ \<Rightarrow> empty_auth)"

definition login_message :: string where
  "login_message = ''Please sign this message to connect your wallet to Flow 3 and verifying your ownership only.''"

subsection \<open>The request pipeline and the session manager\<close>

text \<open>
  The six routines that call each other, as the operations of one interpreter
  \<open>run\<close>:
  \<^item> \<open>MakeRequest\<close>: \<open>makeRequest(url, method, data, options)\<close>, building the
    headers from the current token and entering the retry loop with \<open>currRetries = 0\<close>;
  \<^item> \<open>Loop\<close>: one iteration of its \<open>do \<dots> while (currRetries <= retries)\<close>;
  \<^item> \<open>GetValidToken isNew\<close>: \<open>getValidToken(isNew)\<close> up to the login fallback;
  \<^item> \<open>GvtLogin\<close>: the login fallback at the end of \<open>getValidToken\<close>;
  \<^item> \<open>Auth\<close>, \<open>GetRefereshToken\<close>: the login and refresh wrappers.
  \<open>makeRequest\<close>, \<open>auth\<close> and \<open>getRefereshToken\<close> return the answer object
  (\<open>RResp\<close>), \<open>getValidToken\<close> a token or \<open>null\<close> (\<open>RToken\<close>).
\<close>

datatype call =
    MakeRequest endpoint http_method req_body req_opts
  | Loop request endpoint http_method req_body req_opts nat
  | GetValidToken bool
  | GvtLogin
  | Auth
  | GetRefereshToken

datatype ret = RResp resp | RToken "token option"

primrec run :: "server \<Rightarrow> nat \<Rightarrow> call \<Rightarrow> client \<Rightarrow> (ret \<times> client) option" where
  "run srv 0 c s = None"
| "run srv (Suc f) c s =
    (case c of
      MakeRequest ep m pl opts \<Rightarrow>
        run srv f (Loop (mk_request ep m pl opts (c_token s)) ep m pl opts 0) s
    | Loop rq ep m pl opts cur \<Rightarrow>
        (case exec_http srv rq s of
           (HOk st b, s1) \<Rightarrow> Some (RResp (ok_resp st b), s1)
         | (HErr est msg, s1) \<Rightarrow>
             (let s2 = log LWarning s1 in
              if est = Some 401 then
                (case run srv f (GetValidToken True) (log LInfo s2) of
                   Some (RToken tk, s3) \<Rightarrow> run srv f (MakeRequest ep m pl opts) (s3\<lparr>c_token := tk\<rparr>)
                 | _ \<Rightarrow> None)
              else if est = Some 400 then Some (RResp (fail_resp est msg), log LError s2)
              else
                (let s3 = (if est = Some 429 then sleep 60 (log LWarning s2) else s2) in
                 if js_gt cur (o_retries opts) then Some (RResp (fail_resp est msg), s3)
                 else
                   (let s4 = sleep 5 s3 in
                    if js_le (Suc cur) (o_retries opts)
                    then run srv f (Loop rq ep m pl opts (Suc cur)) s4
                    else Some (RResp (fail_resp est msg), s4)))))
    | GetValidToken isNew \<Rightarrow>
        (let tk = c_token s; s1 = log LInfo s in
         if tk \<noteq> None \<and> \<not> isNew \<and> \<not> isTokenExpired (w_clock s) tk
         then Some (RToken tk, log LSuccess s1)
         else
           (case ai_refresh (c_auth s) of
              None \<Rightarrow> run srv f GvtLogin s1
            | Some rt \<Rightarrow>
                (let s2 = log LInfo s1 in
                 if isTokenExpired (w_clock s2) (Some rt) then run srv f GvtLogin s2
                 else
                   (case run srv f GetRefereshToken s2 of
                      Some (RResp res, s3) \<Rightarrow>
                        (case body_access (r_data res) of
                           Some at \<Rightarrow> Some (RToken (Some at), saveJson (c_session s3) (body_auth (r_data res)) s3)
                         | None \<Rightarrow> run srv f GvtLogin s3)
                    | _ \<Rightarrow> None))))
    | GvtLogin \<Rightarrow>
        (case run srv f Auth (log LWarning s) of
           Some (RResp res, s1) \<Rightarrow>
             if \<not> r_success res then Some (RToken None, s1)
             else
               (case body_access (r_data res) of
                  Some at \<Rightarrow> Some (RToken (Some at), saveJson (c_session s1) (body_auth (r_data res)) s1)
                | None \<Rightarrow> Some (RToken None, log LWarning s1))
         | _ \<Rightarrow> None)
    | Auth \<Rightarrow>
        run srv f (MakeRequest EpLogin POST (LoginBody (c_address s) (REF_CODE (c_cfg s)))
          (given_opts True None)) s
    | GetRefereshToken \<Rightarrow>
        run srv f (MakeRequest EpRefresh POST (RefreshBody (ai_refresh (c_auth s)))
          (given_opts False (ai_refresh (c_auth s)))) s)"

subsection \<open>The endpoint wrappers\<close>

text \<open>
  Each wrapper method of \<open>ClientAPI\<close> is one \<open>makeRequest\<close> call. Those that pass
  an options object (\<open>hb\<close>, \<open>getBalance\<close>, and \<open>auth\<close>, \<open>getRefereshToken\<close>
  above) leave \<open>retries\<close> undefined; the others get the default options.
\<close>

definition hb :: call where
  "hb = MakeRequest EpBandwidth POST NoBody (given_opts False None)"

definition getRef :: call where
  "getRef = MakeRequest EpRefStats GET NoBody default_opts"

definition getBalance :: call where
  "getBalance = MakeRequest EpPointInfo GET NoBody (given_opts False None)"

definition getUserData :: call where
  "getUserData = MakeRequest EpProfile GET NoBody default_opts"

definition getTasks :: call where
  "getTasks = MakeRequest EpTasks GET NoBody default_opts"

definition getDailyTasks :: call where
  "getDailyTasks = MakeRequest EpTasksDaily GET NoBody default_opts"

definition getTasksCompleted :: call where
  "getTasksCompleted = MakeRequest EpTasksCompleted GET NoBody default_opts"

definition compleTask :: "nat \<Rightarrow> call" where
  "compleTask tid = MakeRequest (EpCompleteTask tid) POST NoBody default_opts"

definition checkin :: call where
  "checkin = MakeRequest EpCompleteDaily POST NoBody default_opts"

subsection \<open>Analysis notions\<close>

text \<open>Which operations answer a token and which an answer object.\<close>

fun is_tok_call :: "call \<Rightarrow> bool" where
  "is_tok_call (GetValidToken _) = True"
| "is_tok_call GvtLogin = True"
| "is_tok_call _ = False"

fun ret_matches :: "call \<Rightarrow> ret \<Rightarrow> bool" where
  "ret_matches c (RToken _) = is_tok_call c"
| "ret_matches c (RResp _) = (\<not> is_tok_call c)"

text \<open>
  The fuel that is enough for each operation when no answer is 401: the retry loop
  needs one unit per remaining attempt, \<open>getValidToken\<close> at most a refresh and a login
  with undefined budgets.
\<close>

fun loop_need :: "nat option \<Rightarrow> nat \<Rightarrow> nat" where
  "loop_need None cur = 1"
| "loop_need (Some k) cur = Suc (k - cur)"

fun call_fuel :: "call \<Rightarrow> nat" where
  "call_fuel (MakeRequest ep m pl opts) = Suc (loop_need (o_retries opts) 0)"
| "call_fuel (Loop rq ep m pl opts cur) = loop_need (o_retries opts) cur"
| "call_fuel (GetValidToken b) = 5"
| "call_fuel GvtLogin = 4"
| "call_fuel Auth = 3"
| "call_fuel GetRefereshToken = 3"

definition is_401 :: "http_result \<Rightarrow> bool" where
  "is_401 r = (case r of HErr st _ \<Rightarrow> st = Some 401 | HOk _ _ \<Rightarrow> False)"

text \<open>
  The events of one failed attempt that is neither 401 nor 400: the call, the warning,
  for 429 a second warning and the 60 s cooldown, then the 5 s pause before the next
  attempt (taken even after the last one).
\<close>

definition fail_events :: "request \<Rightarrow> int option \<Rightarrow> event list" where
  "fail_events rq est =
     [EHttp rq, ELog LWarning] @ (if est = Some 429 then [ELog LWarning, ESleep 60] else []) @ [ESleep 5]"

definition attempts :: "nat option \<Rightarrow> nat" where
  "attempts r = (case r of None \<Rightarrow> 1 | Some k \<Rightarrow> Suc k)"

subsection \<open>Concrete inputs\<close>

text \<open>
  A server that answers the calls in order from a script (and times out after it), and a
  fresh client: no stored session, empty \<open>authInfo\<close>, clock at 0.
\<close>

definition script_server :: "http_result list \<Rightarrow> server" where
  "script_server rs i rq = (if i < length rs then rs ! i else HErr None ''timeout'')"

definition demo_cfg :: settings where
  "demo_cfg = \<lparr>USE_PROXY = False, AUTO_TASK = True, AUTO_MINING = True, SKIP_TASKS = [],
     MAX_THEADS = 2, MAX_THEADS_NO_PROXY = 2, REF_CODE = ''REF''\<rparr>"

definition demo_client :: client where
  "demo_client = \<lparr>w_calls = 0, w_clock = 0, w_events = [], w_store = Map.empty, w_intervals = [],
     c_cfg = demo_cfg, c_address = ''A1'', c_index = 0, c_proxy = None, c_proxy_ip = None,
     c_session = ''A1'', c_token = None, c_auth = empty_auth, c_local = Map.empty\<rparr>"

definition demo_tokens :: auth_info where
  "demo_tokens = \<lparr>ai_access = Some (Token 3 5000), ai_refresh = Some (Token 4 90000), ai_token = None,
     ai_latest = None\<rparr>"

text \<open>A client whose access token is missing and whose refresh token is still valid.\<close>

definition demo_refresh_client :: client where
  "demo_refresh_client = demo_client\<lparr>c_auth := empty_auth\<lparr>ai_refresh := Some (Token 2 5000)\<rparr>\<rparr>"

subsection \<open>Step equations\<close>

lemma run_MakeRequest:
  "run srv (Suc f) (MakeRequest ep m pl opts) s =
     run srv f (Loop (mk_request ep m pl opts (c_token s)) ep m pl opts 0) s"
  by simp

lemma run_GetValidToken:
  "run srv (Suc f) (GetValidToken isNew) s =
    (if c_token s \<noteq> None \<and> \<not> isNew \<and> \<not> isTokenExpired (w_clock s) (c_token s)
     then Some (RToken (c_token s), log LSuccess (log LInfo s))
     else
       (case ai_refresh (c_auth s) of
          None \<Rightarrow> run srv f GvtLogin (log LInfo s)
        | Some rt \<Rightarrow>
            if isTokenExpired (w_clock s) (Some rt) then run srv f GvtLogin (log LInfo (log LInfo s))
            else
              (case run srv f GetRefereshToken (log LInfo (log LInfo s)) of
                 Some (RResp res, s3) \<Rightarrow>
                   (case body_access (r_data res) of
                      Some at \<Rightarrow> Some (RToken (Some at), saveJson (c_session s3) (body_auth (r_data res)) s3)
                    | None \<Rightarrow> run srv f GvtLogin s3)
               | _ \<Rightarrow> None)))"
  unfolding run.simps call.case Let_def by (simp add: effect_simps split: option.split)

lemma run_GvtLogin:
  "run srv (Suc f) GvtLogin s =
    (case run srv f Auth (log LWarning s) of
       Some (RResp res, s1) \<Rightarrow>
         if \<not> r_success res then Some (RToken None, s1)
         else
           (case body_access (r_data res) of
              Some at \<Rightarrow> Some (RToken (Some at), saveJson (c_session s1) (body_auth (r_data res)) s1)
            | None \<Rightarrow> Some (RToken None, log LWarning s1))
     | _ \<Rightarrow> None)"
  by simp

lemma run_Auth:
  "run srv (Suc f) Auth s =
     run srv f (MakeRequest EpLogin POST (LoginBody (c_address s) (REF_CODE (c_cfg s))) (given_opts True None)) s"
  by simp

lemma run_GetRefereshToken:
  "run srv (Suc f) GetRefereshToken s =
     run srv f (MakeRequest EpRefresh POST (RefreshBody (ai_refresh (c_auth s)))
       (given_opts False (ai_refresh (c_auth s)))) s"
  by simp

lemma run_Loop:
  "run srv (Suc f) (Loop rq ep m pl opts cur) s =
    (case srv (w_calls s) rq of
       HOk st b \<Rightarrow> Some (RResp (ok_resp st b), snd (exec_http srv rq s))
     | HErr est msg \<Rightarrow>
         (let s2 = log LWarning (snd (exec_http srv rq s)) in
          if est = Some 401 then
            (case run srv f (GetValidToken True) (log LInfo s2) of
               Some (RToken tk, s3) \<Rightarrow> run srv f (MakeRequest ep m pl opts) (s3\<lparr>c_token := tk\<rparr>)
             | _ \<Rightarrow> None)
          else if est = Some 400 then Some (RResp (fail_resp est msg), log LError s2)
          else
            (let s3 = (if est = Some 429 then sleep 60 (log LWarning s2) else s2) in
             if js_gt cur (o_retries opts) then Some (RResp (fail_resp est msg), s3)
             else if js_le (Suc cur) (o_retries opts)
             then run srv f (Loop rq ep m pl opts (Suc cur)) (sleep 5 s3)
             else Some (RResp (fail_resp est msg), sleep 5 s3))))"
  by (simp add: exec_http_def Let_def split: http_result.split)

lemmas run_steps = run_MakeRequest run_GetValidToken run_GvtLogin run_Auth run_GetRefereshToken

declare run.simps(2) [simp del]

lemma run_Loop_HOk:
  "srv (w_calls s) rq = HOk st b \<Longrightarrow>
   run srv (Suc f) (Loop rq ep m pl opts cur) s = Some (RResp (ok_resp st b), snd (exec_http srv rq s))"
  by (simp add: run_Loop)

lemma run_Loop_401:
  "srv (w_calls s) rq = HErr (Some 401) msg \<Longrightarrow>
   run srv (Suc f) (Loop rq ep m pl opts cur) s =
     (case run srv f (GetValidToken True) (log LInfo (log LWarning (snd (exec_http srv rq s)))) of
        Some (RToken tk, s3) \<Rightarrow> run srv f (MakeRequest ep m pl opts) (s3\<lparr>c_token := tk\<rparr>)
      | _ \<Rightarrow> None)"
  by (simp add: run_Loop)

lemma run_Loop_400:
  "srv (w_calls s) rq = HErr (Some 400) msg \<Longrightarrow>
   run srv (Suc f) (Loop rq ep m pl opts cur) s =
     Some (RResp (fail_resp (Some 400) msg), log LError (log LWarning (snd (exec_http srv rq s))))"
  by (simp add: run_Loop)

lemma run_Loop_retry:
  "srv (w_calls s) rq = HErr est msg \<Longrightarrow> est \<noteq> Some 401 \<Longrightarrow> est \<noteq> Some 400 \<Longrightarrow>
   run srv (Suc f) (Loop rq ep m pl opts cur) s =
     (let s3 = (if est = Some 429 then sleep 60 (log LWarning (log LWarning (snd (exec_http srv rq s))))
                else log LWarning (snd (exec_http srv rq s))) in
      if js_gt cur (o_retries opts) then Some (RResp (fail_resp est msg), s3)
      else if js_le (Suc cur) (o_retries opts) then run srv f (Loop rq ep m pl opts (Suc cur)) (sleep 5 s3)
      else Some (RResp (fail_resp est msg), sleep 5 s3))"
  by (simp add: run_Loop Let_def)

subsection \<open>Shape of results, trace, fuel\<close>

lemma trace_ext_token [simp]:
  "trace_ext s (s'\<lparr>c_token := tk\<rparr>) = trace_ext s s'"
  "trace_ext (s\<lparr>c_token := tk\<rparr>) s' = trace_ext s s'"
  by (simp_all add: trace_ext_def)

lemma ret_matches_iff [simp]:
  "is_tok_call c \<Longrightarrow> ret_matches c r \<longleftrightarrow> (\<exists>t. r = RToken t)"
  "\<not> is_tok_call c \<Longrightarrow> ret_matches c r \<longleftrightarrow> (\<exists>x. r = RResp x)"
  by (cases r; simp)+

lemma is_401_iff: "is_401 r \<longleftrightarrow> (\<exists>m. r = HErr (Some 401) m)"
  by (cases r) (auto simp: is_401_def)

lemma loop_need_pos [simp]: "loop_need r cur \<noteq> 0"
  by (cases r) auto

lemma run_ret_matches: "run srv f c s = Some (r, s') \<Longrightarrow> ret_matches c r"
proof (induction f arbitrary: c s r s')
  case 0
  then show ?case by simp
next
  case (Suc f)
  show ?case
  proof (cases c)
    case (Loop rq ep m pl opts cur)
    with Suc show ?thesis
      by (auto simp: run_Loop Let_def split: http_result.splits if_splits option.splits ret.splits dest!: Suc.IH)
  qed (use Suc in \<open>auto simp: run_steps split: if_splits option.splits ret.splits dest!: Suc.IH\<close>)
qed

lemma run_trace_ext: "run srv f c s = Some (r, s') \<Longrightarrow> trace_ext s s'"
proof (induction f arbitrary: c s r s')
  case 0
  then show ?case by simp
next
  case (Suc f)
  show ?case
  proof (cases c)
    case (Loop rq ep m pl opts cur)
    show ?thesis
    proof (cases "srv (w_calls s) rq")
      case (HOk st b)
      with Suc.prems Loop show ?thesis by (auto simp: run_Loop_HOk)
    next
      case (HErr est msg)
      consider "est = Some 401" | "est = Some 400" | "est \<noteq> Some 401 \<and> est \<noteq> Some 400" by blast
      then show ?thesis
      proof cases
        case 1
        let ?s2 = "log LInfo (log LWarning (snd (exec_http srv rq s)))"
        from Suc.prems Loop HErr 1 obtain tk s3 where
          g: "run srv f (GetValidToken True) ?s2 = Some (RToken tk, s3)" and
          mr: "run srv f (MakeRequest ep m pl opts) (s3\<lparr>c_token := tk\<rparr>) = Some (r, s')"
          by (auto simp: run_Loop_401 split: option.splits ret.splits)
        have "trace_ext s s3"
          using Suc.IH[OF g] by (meson trace_ext_effects_left)
        moreover have "trace_ext s3 s'" using Suc.IH[OF mr] by simp
        ultimately show ?thesis using trace_ext_trans by blast
      next
        case 2
        with Suc.prems Loop HErr show ?thesis by (auto simp: run_Loop_400 intro!: trace_ext_effects_right)
      next
        case 3
        with Suc.prems Loop HErr show ?thesis
          by (auto simp: run_Loop_retry Let_def split: if_splits intro!: trace_ext_effects_right
              dest!: Suc.IH trace_ext_effects_left)
      qed
    qed
  qed (use Suc in \<open>auto simp: run_steps split: if_splits option.splits ret.splits
        intro!: trace_ext_effects_right dest!: Suc.IH trace_ext_effects_left intro: trace_ext_trans\<close>)
qed

lemma run_fuel_mono_eq: "run srv f c s \<noteq> None \<Longrightarrow> run srv (Suc f) c s = run srv f c s"
proof (induction f arbitrary: c s)
  case 0
  then show ?case by simp
next
  case (Suc f)
  show ?case
  proof (cases c)
    case (Loop rq ep m pl opts cur)
    show ?thesis
    proof (cases "srv (w_calls s) rq")
      case (HOk st b)
      then show ?thesis using Loop by (simp add: run_Loop_HOk)
    next
      case (HErr est msg)
      consider "est = Some 401" | "est = Some 400" | "est \<noteq> Some 401 \<and> est \<noteq> Some 400" by blast
      then show ?thesis
      proof cases
        case 1
        let ?s2 = "log LInfo (log LWarning (snd (exec_http srv rq s)))"
        from Suc.prems Loop HErr 1 obtain tk s3 where
          g: "run srv f (GetValidToken True) ?s2 = Some (RToken tk, s3)" and
          mr: "run srv f (MakeRequest ep m pl opts) (s3\<lparr>c_token := tk\<rparr>) \<noteq> None"
          by (auto simp: run_Loop_401 split: option.splits ret.splits)
        have e1: "run srv (Suc f) (GetValidToken True) ?s2 = run srv f (GetValidToken True) ?s2"
          by (rule Suc.IH) (simp add: g)
        have e2: "run srv (Suc f) (MakeRequest ep m pl opts) (s3\<lparr>c_token := tk\<rparr>) =
            run srv f (MakeRequest ep m pl opts) (s3\<lparr>c_token := tk\<rparr>)"
          by (rule Suc.IH) (rule mr)
        from Loop HErr 1 show ?thesis
          by (simp only: run_Loop_401 e1 e2 g option.case prod.case ret.case)
      next
        case 2
        with Loop HErr show ?thesis by (simp add: run_Loop_400)
      next
        case 3
        with Suc Loop HErr show ?thesis by (simp add: run_Loop_retry Let_def split: if_splits)
      qed
    qed
  next
    case (MakeRequest ep m pl opts)
    with Suc show ?thesis by (simp add: run_MakeRequest)
  next
    case Auth
    with Suc show ?thesis by (simp add: run_Auth)
  next
    case GetRefereshToken
    with Suc show ?thesis by (simp add: run_GetRefereshToken)
  next
    case GvtLogin
    with Suc show ?thesis by (auto simp: run_GvtLogin split: option.splits ret.splits)
  next
    case (GetValidToken b)
    with Suc show ?thesis by (auto simp: run_GetValidToken split: if_splits option.splits ret.splits)
  qed
qed

lemma run_401_none:
  assumes "\<forall>i rq. is_401 (srv i rq)"
  shows "c \<noteq> GetValidToken False \<Longrightarrow> run srv f c s = None"
proof (induction f arbitrary: c s)
  case 0
  then show ?case by simp
next
  case (Suc f)
  show ?case
  proof (cases c)
    case (Loop rq ep m pl opts cur)
    obtain msg where "srv (w_calls s) rq = HErr (Some 401) msg" using assms by (meson is_401_iff)
    with Loop Suc.IH show ?thesis by (simp add: run_Loop_401)
  next
    case (GetValidToken b)
    with Suc show ?thesis by (auto simp: run_GetValidToken split: option.splits)
  qed (use Suc in \<open>simp_all add: run_steps\<close>)
qed

lemma backoff_events:
  "w_events (sleep 5 (if est = Some 429 then sleep 60 (log LWarning (log LWarning (snd (exec_http srv rq s))))
                      else log LWarning (snd (exec_http srv rq s)))) = w_events s @ fail_events rq est"
  by (simp add: effect_simps fail_events_def)

lemma loop_transient:
  assumes srv: "\<forall>i. srv i rq = HErr est msg" and ne: "est \<noteq> Some 401" "est \<noteq> Some 400"
  shows "(\<forall>k. o_retries opts = Some k \<longrightarrow> cur \<le> k) \<Longrightarrow> loop_need (o_retries opts) cur \<le> f \<Longrightarrow>
    \<exists>s'. run srv f (Loop rq ep m pl opts cur) s = Some (RResp (fail_resp est msg), s') \<and>
         w_events s' = w_events s @ concat (replicate (loop_need (o_retries opts) cur) (fail_events rq est))"
proof (induction f arbitrary: cur s)
  case 0
  then show ?case by simp
next
  case (Suc f)
  let ?s3 = "if est = Some 429 then sleep 60 (log LWarning (log LWarning (snd (exec_http srv rq s))))
             else log LWarning (snd (exec_http srv rq s))"
  have step: "run srv (Suc f) (Loop rq ep m pl opts cur) s =
      (if js_gt cur (o_retries opts) then Some (RResp (fail_resp est msg), ?s3)
       else if js_le (Suc cur) (o_retries opts) then run srv f (Loop rq ep m pl opts (Suc cur)) (sleep 5 ?s3)
       else Some (RResp (fail_resp est msg), sleep 5 ?s3))"
    using srv ne by (simp add: run_Loop_retry Let_def)
  show ?case
  proof (cases "o_retries opts")
    case None
    with step show ?thesis by (simp add: backoff_events)
  next
    case (Some k)
    with Suc.prems have ck: "cur \<le> k" by simp
    show ?thesis
    proof (cases "Suc cur \<le> k")
      case True
      have p1: "\<forall>k'. o_retries opts = Some k' \<longrightarrow> Suc cur \<le> k'" using Some True by simp
      have p2: "loop_need (o_retries opts) (Suc cur) \<le> f" using Suc.prems Some True by simp
      obtain s' where
        r: "run srv f (Loop rq ep m pl opts (Suc cur)) (sleep 5 ?s3) = Some (RResp (fail_resp est msg), s')" and
        e: "w_events s' = w_events (sleep 5 ?s3) @
              concat (replicate (loop_need (o_retries opts) (Suc cur)) (fail_events rq est))"
        using Suc.IH[OF p1 p2] by blast
      have kc: "k - cur = Suc (k - Suc cur)" using True by simp
      from step Some ck True r e kc show ?thesis by (simp add: backoff_events)
    next
      case False
      with ck have "cur = k" by simp
      with step Some show ?thesis by (simp add: backoff_events)
    qed
  qed
qed

lemma make_request_transient_gen:
  assumes "\<forall>i. srv i (mk_request ep m pl opts (c_token s)) = HErr est msg"
    and "est \<noteq> Some 401" "est \<noteq> Some 400"
    and "call_fuel (MakeRequest ep m pl opts) \<le> f"
  shows "\<exists>s'. run srv f (MakeRequest ep m pl opts) s = Some (RResp (fail_resp est msg), s') \<and>
    w_events s' = w_events s @
      concat (replicate (attempts (o_retries opts)) (fail_events (mk_request ep m pl opts (c_token s)) est))"
proof -
  from assms(4) obtain f' where f: "f = Suc f'" and le: "loop_need (o_retries opts) 0 \<le> f'"
    by (cases f) auto
  have la: "loop_need (o_retries opts) 0 = attempts (o_retries opts)"
    by (cases "o_retries opts") (simp_all add: attempts_def)
  have p1: "\<forall>k. o_retries opts = Some k \<longrightarrow> 0 \<le> k" by simp
  obtain s' where
    r: "run srv f' (Loop (mk_request ep m pl opts (c_token s)) ep m pl opts 0) s = Some (RResp (fail_resp est msg), s')" and
    e: "w_events s' = w_events s @ concat (replicate (loop_need (o_retries opts) 0)
                        (fail_events (mk_request ep m pl opts (c_token s)) est))"
    using loop_transient[where srv = srv and rq = "mk_request ep m pl opts (c_token s)" and cur = 0,
        OF assms(1-3) p1 le] by blast
  from r e la f show ?thesis by (simp add: run_MakeRequest)
qed

lemma loop_returns_step:
  assumes no401: "\<forall>i rq. \<not> is_401 (srv i rq)"
    and IH: "\<And>c s. call_fuel c \<le> f \<Longrightarrow> \<exists>r s'. run srv f c s = Some (r, s')"
    and le: "loop_need (o_retries opts) cur \<le> Suc f"
  shows "\<exists>r s'. run srv (Suc f) (Loop rq ep m pl opts cur) s = Some (r, s')"
proof (cases "srv (w_calls s) rq")
  case (HOk st b)
  then show ?thesis by (simp add: run_Loop_HOk)
next
  case (HErr est msg)
  have n401: "est \<noteq> Some 401" using no401 HErr by (auto simp: is_401_iff)
  show ?thesis
  proof (cases "est = Some 400")
    case True
    with HErr show ?thesis by (simp add: run_Loop_400)
  next
    case False
    have "call_fuel (Loop rq ep m pl opts (Suc cur)) \<le> f" if "js_le (Suc cur) (o_retries opts)"
      using that le by (cases "o_retries opts") auto
    with HErr n401 False IH show ?thesis by (auto simp: run_Loop_retry Let_def)
  qed
qed

lemma run_returns_step:
  assumes no401: "\<forall>i rq. \<not> is_401 (srv i rq)"
    and IH: "\<And>c s. call_fuel c \<le> f \<Longrightarrow> \<exists>r s'. run srv f c s = Some (r, s')"
    and le: "call_fuel c \<le> Suc f"
  shows "\<exists>r s'. run srv (Suc f) c s = Some (r, s')"
proof -
  have resp: "\<exists>x s'. run srv f c' s0 = Some (RResp x, s')" if "\<not> is_tok_call c'" "call_fuel c' \<le> f" for c' s0
    using IH[OF that(2), of s0] run_ret_matches[of srv f c' s0] that(1) by fastforce
  show ?thesis
  proof (cases c)
    case (MakeRequest ep m pl opts)
    with IH le show ?thesis by (simp add: run_MakeRequest)
  next
    case (Loop rq ep m pl opts cur)
    with loop_returns_step[OF no401 IH] le show ?thesis by simp
  next
    case (GetValidToken b)
    with le have f4: "4 \<le> f" by simp
    have gl: "\<exists>r s'. run srv f GvtLogin s0 = Some (r, s')" for s0 using IH f4 by simp
    obtain x s3 where r3: "run srv f GetRefereshToken (log LInfo (log LInfo s)) = Some (RResp x, s3)"
      using resp[of GetRefereshToken] f4 by fastforce
    show ?thesis
      using GetValidToken by (auto simp: run_GetValidToken r3 split: option.splits intro: gl)
  next
    case GvtLogin
    with le obtain x s1 where "run srv f Auth (log LWarning s) = Some (RResp x, s1)"
      using resp[of Auth] by fastforce
    with GvtLogin show ?thesis by (simp add: run_GvtLogin split: option.split)
  next
    case Auth
    with IH le show ?thesis by (simp add: run_Auth given_opts_def)
  next
    case GetRefereshToken
    with IH le show ?thesis by (simp add: run_GetRefereshToken given_opts_def)
  qed
qed

lemma run_returns:
  assumes no401: "\<forall>i rq. \<not> is_401 (srv i rq)"
  shows "call_fuel c \<le> f \<Longrightarrow> \<exists>r s'. run srv f c s = Some (r, s')"
proof (induction f arbitrary: c s)
  case 0
  then show ?case by (cases c) auto
next
  case (Suc f)
  then show ?case using run_returns_step[OF no401] by blast
qed

lemma run_fuel_le:
  assumes "run srv f c s = Some r" "f \<le> g"
  shows "run srv g c s = Some r"
  using assms(2,1)
proof (induction g)
  case 0
  then show ?case by simp
next
  case (Suc g)
  show ?case
  proof (cases "f \<le> g")
    case True
    with Suc have "run srv g c s = Some r" by simp
    then show ?thesis using run_fuel_mono_eq[of srv g c s] by simp
  next
    case False
    with Suc.prems show ?thesis by (simp add: le_Suc_eq)
  qed
qed

subsection \<open>Properties of the session manager and the request pipeline\<close>

text \<open>
  C1. Fast path of \<open>getValidToken(false)\<close>: when the current access token exists and its
  expiry claim is in the future, the token is returned at once and the only effects are
  two log lines: no HTTP call, no sleep, no write.
\<close>

theorem gvt_fast_path:
  assumes "c_token s = Some t" "\<not> isTokenExpired (w_clock s) (Some t)"
  shows "run srv (Suc f) (GetValidToken False) s = Some (RToken (Some t), log LSuccess (log LInfo s))"
  using assms by (simp add: run_GetValidToken)

theorem gvt_fast_path_witness:
  "run (script_server []) 1 (GetValidToken False) (demo_client\<lparr>c_token := Some (Token 1 1000)\<rparr>) =
     Some (RToken (Some (Token 1 1000)), log LSuccess (log LInfo (demo_client\<lparr>c_token := Some (Token 1 1000)\<rparr>)))"
  using gvt_fast_path[where s = "demo_client\<lparr>c_token := Some (Token 1 1000)\<rparr>" and t = "Token 1 1000"
      and srv = "script_server []" and f = 0]
  by (simp add: demo_client_def isTokenExpired_def)

text \<open>
  C2. Refresh path: when the access token is missing or expired and the stored refresh
  token is unexpired, and the refresh endpoint answers with a new access token,
  \<open>getValidToken(false)\<close> makes exactly one HTTP call, to the refresh endpoint with the
  refresh token as bearer (never login), returns the new access token, writes the answer
  to the store under the session's address, and leaves \<open>authInfo\<close> as it was.
\<close>

theorem gvt_refresh_only:
  assumes "isTokenExpired (w_clock s) (c_token s)"
    and "ai_refresh (c_auth s) = Some rt" "\<not> isTokenExpired (w_clock s) (Some rt)"
    and "srv (w_calls s) \<lparr>rq_method = POST, rq_endpoint = EpRefresh, rq_auth = Bearer (Some rt),
           rq_body = RefreshBody (Some rt)\<rparr> = HOk st (BAuth ai)"
    and "ai_access ai = Some at"
  shows "\<exists>s'. run srv (Suc (Suc (Suc (Suc f)))) (GetValidToken False) s = Some (RToken (Some at), s') \<and>
    http_requests (w_events s') = http_requests (w_events s) @
      [\<lparr>rq_method = POST, rq_endpoint = EpRefresh, rq_auth = Bearer (Some rt), rq_body = RefreshBody (Some rt)\<rparr>] \<and>
    w_store s' = (w_store s)(c_session s \<mapsto> ai) \<and> c_auth s' = c_auth s"
  using assms
  by (simp add: run_GetValidToken run_GetRefereshToken run_MakeRequest run_Loop_HOk mk_request_def
      build_auth_def given_opts_def ok_resp_def unwrap_body_def body_access_def body_auth_def effect_simps
      effect_defs)

theorem gvt_refresh_only_witness:
  "\<exists>s'. run (script_server [HOk 200 (BAuth demo_tokens)]) 4 (GetValidToken False) demo_refresh_client =
      Some (RToken (Some (Token 3 5000)), s') \<and>
    http_requests (w_events s') =
      [\<lparr>rq_method = POST, rq_endpoint = EpRefresh, rq_auth = Bearer (Some (Token 2 5000)),
        rq_body = RefreshBody (Some (Token 2 5000))\<rparr>] \<and>
    w_store s' = [''A1'' \<mapsto> demo_tokens] \<and> c_auth s' = c_auth demo_refresh_client"
  using gvt_refresh_only[where s = demo_refresh_client and rt = "Token 2 5000"
      and srv = "script_server [HOk 200 (BAuth demo_tokens)]" and st = 200 and ai = demo_tokens
      and at = "Token 3 5000" and f = 0]
  by (simp add: demo_refresh_client_def demo_client_def demo_tokens_def empty_auth_def isTokenExpired_def
      script_server_def numeral_eq_Suc)

text \<open>
  C3. Unauthorized answer: a 401 makes the pipeline force a token refresh and then send
  the same request once more with the new token. With a valid refresh token and a server
  that accepts the refresh and the repeated request, exactly three HTTP calls are made
  (the request, the refresh, the request with the new bearer), the answer of the second
  attempt is returned, and the client's token is the refreshed one.
\<close>

theorem unauthorized_refresh_then_retry:
  assumes "ai_refresh (c_auth s) = Some rt" "\<not> isTokenExpired (w_clock s) (Some rt)"
    and "srv (w_calls s) (mk_request ep m pl opts (c_token s)) = HErr (Some 401) msg"
    and "srv (Suc (w_calls s)) \<lparr>rq_method = POST, rq_endpoint = EpRefresh, rq_auth = Bearer (Some rt),
           rq_body = RefreshBody (Some rt)\<rparr> = HOk st (BAuth ai)"
    and "ai_access ai = Some at"
    and "srv (Suc (Suc (w_calls s))) (mk_request ep m pl opts (Some at)) = HOk stb b"
  shows "\<exists>s'. run srv (Suc (Suc (Suc (Suc (Suc (Suc f)))))) (MakeRequest ep m pl opts) s =
      Some (RResp (ok_resp stb b), s') \<and>
    http_requests (w_events s') = http_requests (w_events s) @
      [mk_request ep m pl opts (c_token s),
       \<lparr>rq_method = POST, rq_endpoint = EpRefresh, rq_auth = Bearer (Some rt), rq_body = RefreshBody (Some rt)\<rparr>,
       mk_request ep m pl opts (Some at)] \<and>
    c_token s' = Some at"
  using assms
  by (simp add: run_MakeRequest run_Loop_401 run_GetValidToken run_GetRefereshToken run_Loop_HOk
      mk_request_def build_auth_def given_opts_def ok_resp_def unwrap_body_def body_access_def body_auth_def
      effect_simps effect_defs)

theorem unauthorized_refresh_then_retry_witness:
  "\<exists>s'. run (script_server [HErr (Some 401) ''jwt expired'', HOk 200 (BAuth demo_tokens), HOk 200 BProfile]) 6
      getUserData demo_refresh_client = Some (RResp (ok_resp 200 BProfile), s') \<and>
    http_requests (w_events s') =
      [mk_request EpProfile GET NoBody default_opts None,
       \<lparr>rq_method = POST, rq_endpoint = EpRefresh, rq_auth = Bearer (Some (Token 2 5000)),
        rq_body = RefreshBody (Some (Token 2 5000))\<rparr>,
       mk_request EpProfile GET NoBody default_opts (Some (Token 3 5000))] \<and>
    c_token s' = Some (Token 3 5000)"
  using unauthorized_refresh_then_retry[where s = demo_refresh_client and rt = "Token 2 5000"
      and srv = "script_server [HErr (Some 401) ''jwt expired'', HOk 200 (BAuth demo_tokens), HOk 200 BProfile]"
      and ep = EpProfile and m = GET and pl = NoBody and opts = default_opts and msg = "''jwt expired''"
      and st = 200 and ai = demo_tokens and at = "Token 3 5000" and stb = 200 and b = BProfile and f = 0]
  by (simp add: demo_refresh_client_def demo_client_def demo_tokens_def empty_auth_def isTokenExpired_def
      script_server_def getUserData_def numeral_eq_Suc)

text \<open>
  C4. Bad request: an answer 400 is returned at once as a failure carrying the status and
  the server's message; the request is sent exactly once, an error is logged, and no time
  passes (no retry, no pause).
\<close>

theorem bad_request_no_retry:
  assumes "srv (w_calls s) (mk_request ep m pl opts (c_token s)) = HErr (Some 400) msg"
  shows "\<exists>s'. run srv (Suc (Suc f)) (MakeRequest ep m pl opts) s = Some (RResp (fail_resp (Some 400) msg), s') \<and>
    w_events s' = w_events s @ [EHttp (mk_request ep m pl opts (c_token s)), ELog LWarning, ELog LError] \<and>
    w_clock s' = w_clock s"
  using assms by (simp add: run_MakeRequest run_Loop_400 effect_simps)

theorem bad_request_no_retry_witness:
  "\<exists>s'. run (script_server [HErr (Some 400) ''bad version'']) 2 (compleTask 7) demo_client =
      Some (RResp (fail_resp (Some 400) ''bad version''), s') \<and>
    w_events s' = [EHttp (mk_request (EpCompleteTask 7) POST NoBody default_opts None), ELog LWarning, ELog LError] \<and>
    w_clock s' = 0"
  using bad_request_no_retry[where s = demo_client and srv = "script_server [HErr (Some 400) ''bad version'']"
      and ep = "EpCompleteTask 7" and m = POST and pl = NoBody and opts = default_opts
      and msg = "''bad version''" and f = 0]
  by (simp add: demo_client_def script_server_def compleTask_def numeral_eq_Suc)

text \<open>
  C5. Retry budget: when every attempt of a request with a defined budget \<open>k\<close> fails
  with an error that is neither 401 nor 400 (a network error, 5xx, or 429), the pipeline
  returns the last failure without raising, after exactly \<open>k + 1\<close> attempts; each
  attempt is followed by the 5 s pause, the last one included, and a 429 adds the 60 s
  cooldown before it.
\<close>

theorem make_request_transient:
  assumes "\<forall>i. srv i (mk_request ep m pl opts (c_token s)) = HErr est msg"
    and "est \<noteq> Some 401" "est \<noteq> Some 400"
    and "o_retries opts = Some k" "k + 2 \<le> f"
  shows "\<exists>s'. run srv f (MakeRequest ep m pl opts) s = Some (RResp (fail_resp est msg), s') \<and>
    w_events s' = w_events s @ concat (replicate (Suc k) (fail_events (mk_request ep m pl opts (c_token s)) est))"
  using make_request_transient_gen[where srv = srv and s = s and ep = ep and m = m and pl = pl and opts = opts
      and f = f, OF assms(1-3)] assms(4,5) by (simp add: attempts_def)

theorem make_request_transient_witness:
  "\<exists>s'. run (script_server []) 4 getUserData demo_client = Some (RResp (fail_resp None ''timeout''), s') \<and>
    w_events s' = concat (replicate 3 (fail_events (mk_request EpProfile GET NoBody default_opts None) None))"
  using make_request_transient[where srv = "script_server []" and s = demo_client and ep = EpProfile and m = GET
      and pl = NoBody and opts = default_opts and est = None and msg = "''timeout''" and k = 2 and f = 4]
  by (simp add: script_server_def demo_client_def default_opts_def getUserData_def)

text \<open>
  C6. The balance request has no retry budget: \<open>getBalance\<close> passes an options object
  without \<open>retries\<close>, so the budget is undefined and a transient failure ends the
  request after a single attempt (one call, one pause), where a request with default
  options makes three.
\<close>

theorem balance_single_attempt:
  assumes "\<forall>i. srv i (mk_request EpPointInfo GET NoBody (given_opts False None) (c_token s)) = HErr est msg"
    and "est \<noteq> Some 401" "est \<noteq> Some 400"
  shows "\<exists>s'. run srv (Suc (Suc f)) getBalance s = Some (RResp (fail_resp est msg), s') \<and>
    w_events s' = w_events s @ fail_events (mk_request EpPointInfo GET NoBody (given_opts False None) (c_token s)) est"
  using make_request_transient_gen[where srv = srv and s = s and ep = EpPointInfo and m = GET and pl = NoBody
      and opts = "given_opts False None" and f = "Suc (Suc f)", OF assms]
  by (simp add: getBalance_def given_opts_def attempts_def)

theorem balance_single_attempt_witness:
  "\<exists>s'. run (script_server []) 2 getBalance demo_client = Some (RResp (fail_resp None ''timeout''), s') \<and>
    w_events s' = fail_events (mk_request EpPointInfo GET NoBody (given_opts False None) None) None"
  using balance_single_attempt[where srv = "script_server []" and s = demo_client and est = None
      and msg = "''timeout''" and f = 0]
  by (simp add: script_server_def demo_client_def numeral_eq_Suc)

text \<open>
  C7. Unbounded 401 recursion: if the server answers 401 to every request (including the
  refresh and the login themselves), \<open>makeRequest\<close> never returns: for every amount of
  fuel the result is \<open>None\<close>. Each 401 starts a new \<open>getValidToken(true)\<close>, whose own
  request meets a 401 again.
\<close>

theorem always_401_diverges:
  assumes "\<forall>i rq. is_401 (srv i rq)"
  shows "run srv f (MakeRequest ep m pl opts) s = None"
  using run_401_none[OF assms] by simp

theorem always_401_diverges_witness:
  "run (\<lambda>i rq. HErr (Some 401) ''unauthorized'') 50 getUserData demo_client = None"
  using always_401_diverges[where srv = "\<lambda>i rq. HErr (Some 401) ''unauthorized''" and f = 50
      and ep = EpProfile and m = GET and pl = NoBody and opts = default_opts and s = demo_client]
  by (simp add: is_401_def getUserData_def)

text \<open>
  C8. Termination: when the server never answers 401, every operation of the pipeline
  and the session manager returns, and \<open>call_fuel\<close> units of fuel are enough
  (\<open>k + 2\<close> for a request with budget \<open>k\<close>, 5 for \<open>getValidToken\<close>).
\<close>

theorem run_terminates:
  assumes "\<forall>i rq. \<not> is_401 (srv i rq)" "call_fuel c \<le> f"
  shows "\<exists>r s'. run srv f c s = Some (r, s')"
  using run_returns[OF assms] .

theorem run_terminates_witness:
  "\<exists>r s'. run (script_server []) 5 (GetValidToken False) demo_client = Some (r, s')"
  using run_terminates[where srv = "script_server []" and c = "GetValidToken False" and f = 5 and s = demo_client]
  by (simp add: script_server_def is_401_def)

end
