(* ===== verification/Supervisor.thy ===== *)
theory Supervisor
  imports Session
begin

text \<open>
  The per-account workflow of \<open>src/main.js\<close>: \<open>runAccount\<close> and the handlers it calls
  (\<open>checkProxyIP\<close>, \<open>handleSyncData\<close>, \<open>checkInvaliable\<close>, \<open>handleCheckin\<close>,
  \<open>handleTasks\<close>, \<open>handleHB\<close>, \<open>handleCheckPoint\<close>). A handler ends in one of three
  ways, the type \<open>outcome\<close>: it returns a value and the new state, it throws a JavaScript
  error (which nothing in \<open>runAccount\<close> catches), or one of its requests does not return
  (the request pipeline ran out of fuel). Every request goes through \<open>run\<close> of the
  \<open>Session\<close> theory with the same fuel \<open>f\<close>; the handlers themselves do not recurse
  except over the finite task list.
\<close>

subsection \<open>Outcomes\<close>

datatype js_error = TypeError | ReferenceError

datatype 'a outcome = Done 'a client | Thrown js_error client | Diverged

definition obind :: "'a outcome \<Rightarrow> ('a \<Rightarrow> client \<Rightarrow> 'b outcome) \<Rightarrow> 'b outcome" where
  "obind x k = (case x of Done v s \<Rightarrow> k v s | Thrown e s \<Rightarrow> Thrown e s | Diverged \<Rightarrow> Diverged)"

text \<open>\<open>await this.makeRequest(\<dots>)\<close> through one of the wrappers.\<close>

definition req :: "server \<Rightarrow> nat \<Rightarrow> call \<Rightarrow> client \<Rightarrow> resp outcome" where
  "req srv f c s = (case run srv f c s of Some (RResp r, s') \<Rightarrow> Done r s' | _ \<Rightarrow> Diverged)"

text \<open>
  A value that destructuring or a property read rejects with a \<open>TypeError\<close>:
  \<open>null\<close> (a failed request carries \<open>data: null\<close>).
\<close>

definition js_nullish :: "body option \<Rightarrow> bool" where
  "js_nullish d \<longleftrightarrow> d = None \<or> d = Some BNull"

definition status_code :: "body option \<Rightarrow> int option" where
  "status_code d = (case d of Some (BCode c) \<Rightarrow> c | _ \<Rightarrow> None)"

subsection \<open>Handlers\<close>

text \<open>\<open>handleCheckPoint\<close>: poll the balance and log it.\<close>

definition handleCheckPoint :: "server \<Rightarrow> nat \<Rightarrow> client \<Rightarrow> unit outcome" where
  "handleCheckPoint srv f s =
     obind (req srv f getBalance s) (\<lambda>b s1.
       if \<not> r_success b then Done () (log LWarning s1)
       else if js_nullish (r_data b) then Thrown TypeError s1
       else Done () (log LCustom s1))"

text \<open>\<open>checkInvaliable(date)\<close>: more than 24 hours since \<open>date\<close>, in milliseconds.\<close>

definition checkInvaliable :: "ms \<Rightarrow> ms \<Rightarrow> bool" where
  "checkInvaliable latest now \<longleftrightarrow> now - latest > 24 * 60 * 60 * 1000"

text \<open>
  \<open>handleCheckin\<close>: read the daily tasks, check in if one is not completed, then record
  the current time as \<open>latestCheckin\<close> and save \<open>authInfo\<close> whatever happened.
  \<open>dailytasksData.data.find\<close> throws when the request failed (\<open>data\<close> is \<open>null\<close>) or
  the body is no list.
\<close>

definition handleCheckin :: "server \<Rightarrow> nat \<Rightarrow> client \<Rightarrow> unit outcome" where
  "handleCheckin srv f s =
     obind (req srv f getDailyTasks (log LInfo s)) (\<lambda>d s1.
       (case r_data d of
          Some (BTasks ts) \<Rightarrow>
            obind (case find (\<lambda>t. tstatus t = 0) ts of
                     None \<Rightarrow> Done () s1
                   | Some t \<Rightarrow>
                       obind (req srv f checkin s1) (\<lambda>c s2.
                         if (case status_code (r_data c) of Some n \<Rightarrow> n \<noteq> 0 | None \<Rightarrow> False)
                         then Done () (log LSuccess s2) else Done () (log LWarning s2)))
              (\<lambda>_ s3.
                 (let ai = (c_auth s3)\<lparr>ai_latest := Some (w_clock s3)\<rparr>;
                      s4 = s3\<lparr>c_auth := ai\<rparr> in
                  Done () (saveJson (c_session s4) ai s4)))
        | _ \<Rightarrow> Thrown TypeError s1))"

text \<open>
  The \<open>for (const task of tasksToComplete)\<close> loop of \<open>handleTasks\<close>: pause one second,
  complete the task, log the answer; a failure does not stop the loop.
\<close>

fun complete_tasks :: "server \<Rightarrow> nat \<Rightarrow> task list \<Rightarrow> client \<Rightarrow> unit outcome" where
  "complete_tasks srv f [] s = Done () s"
| "complete_tasks srv f (t # ts) s =
     obind (req srv f (compleTask (taskId t)) (log LInfo (sleep 1 s))) (\<lambda>c s1.
       complete_tasks srv f ts
         (if status_code (r_data c) = Some 200 then log LSuccess s1 else log LWarning s1))"

text \<open>
  \<open>handleTasks\<close>: when \<open>getTasks\<close> fails, the guard reads the undeclared variable
  \<open>dailytasks\<close> and throws a \<open>ReferenceError\<close>; otherwise the tasks not completed and
  not skipped are completed in order.
\<close>

definition tasks_to_complete :: "settings \<Rightarrow> task list \<Rightarrow> task list" where
  "tasks_to_complete cfg ts = filter (\<lambda>t. tstatus t \<noteq> 1 \<and> taskId t \<notin> set (SKIP_TASKS cfg)) ts"

definition handleTasks :: "server \<Rightarrow> nat \<Rightarrow> client \<Rightarrow> unit outcome" where
  "handleTasks srv f s =
     obind (req srv f getTasks (log LInfo s)) (\<lambda>d s1.
       if \<not> r_success d then Thrown ReferenceError s1
       else
         (case r_data d of
            Some (BTasks ts) \<Rightarrow>
              (let todo = tasks_to_complete (c_cfg s1) ts in
               if todo = [] then Done () (log LWarning s1) else complete_tasks srv f todo s1)
          | _ \<Rightarrow> Thrown TypeError s1))"

text \<open>
  The \<open>do \<dots> while (retries < 1 && userData.status !== 400)\<close> loop of
  \<open>handleSyncData\<close>, with its counter.
\<close>

function sync_loop :: "server \<Rightarrow> nat \<Rightarrow> nat \<Rightarrow> client \<Rightarrow> resp outcome" where
  "sync_loop srv f retries s =
     obind (req srv f getUserData s) (\<lambda>u s1.
       if r_success u then Done u s1
       else if Suc retries < 1 \<and> r_status u \<noteq> Some 400 then sync_loop srv f (Suc retries) s1
       else Done u s1)"
  by pat_completeness auto
termination
  by (relation "measure (\<lambda>(srv, f, retries, s). 1 - retries)") auto

text \<open>
  \<open>handleSyncData\<close>: the profile loop, then the balance; the user data is returned
  (\<open>Some\<close>) only when both succeeded; otherwise the function returns the result of
  \<open>this.log\<close>, a promise without \<open>success\<close> (\<open>None\<close>).
\<close>

definition handleSyncData :: "server \<Rightarrow> nat \<Rightarrow> client \<Rightarrow> resp option outcome" where
  "handleSyncData srv f s =
     obind (sync_loop srv f 0 (log LInfo s)) (\<lambda>u s1.
       obind (req srv f getBalance s1) (\<lambda>b s2.
         if r_success u \<and> r_success b then
           (if js_nullish (r_data u) \<or> js_nullish (r_data b) then Thrown TypeError s2
            else Done (Some u) (log LCustom s2))
         else Done None (log LWarning s2)))"

text \<open>\<open>handleHB\<close>: one heartbeat, logged.\<close>

definition handleHB :: "server \<Rightarrow> nat \<Rightarrow> client \<Rightarrow> unit outcome" where
  "handleHB srv f s =
     obind (req srv f hb s) (\<lambda>r s1.
       if r_success r then Done () (log LSuccess s1) else Done () (log LWarning s1))"

text \<open>
  \<open>checkProxyIP\<close>: one GET of the IP echo service through the proxy. A status other than
  200, and any transport error, is an exception (\<open>None\<close>), which \<open>runAccount\<close>
  catches; a 200 answer returns \<open>response.data.ip\<close>, which is \<open>undefined\<close> when the
  body has no IP.
\<close>

definition ipify_request :: request where
  "ipify_request = \<lparr>rq_method = GET, rq_endpoint = EpIpify, rq_auth = NoAuthHeader, rq_body = NoBody\<rparr>"

definition body_ip :: "body \<Rightarrow> string option" where
  "body_ip b = (case b of BIp ip \<Rightarrow> Some ip | _ \<Rightarrow> None)"

definition checkProxyIP :: "server \<Rightarrow> client \<Rightarrow> string option option \<times> client" where
  "checkProxyIP srv s =
     (case exec_http srv ipify_request s of
        (HOk st b, s1) \<Rightarrow>
          if st = 200 then (Some (body_ip b), s1\<lparr>c_proxy_ip := body_ip b\<rparr>) else (None, s1)
      | (HErr _ _, s1) \<Rightarrow> (None, s1))"

text \<open>\<open>setInterval(job, period)\<close>: the timer is registered in \<open>intervalIds\<close>.\<close>

definition set_interval :: "job \<Rightarrow> nat \<Rightarrow> 'a world_scheme \<Rightarrow> 'a world_scheme" where
  "set_interval j p s = s\<lparr>w_intervals := w_intervals s @ [j], w_events := w_events s @ [ESetInterval j p]\<rparr>"

subsection \<open>The account workflow\<close>

text \<open>
  The check-in decision of \<open>runAccount\<close>: check in when no check-in is recorded or the
  last one is more than 24 hours old, then pause one second.
\<close>

definition maybe_checkin :: "server \<Rightarrow> nat \<Rightarrow> client \<Rightarrow> unit outcome" where
  "maybe_checkin srv f s =
     (case ai_latest (c_auth s) of
        Some t \<Rightarrow>
          if checkInvaliable t (w_clock s)
          then obind (handleCheckin srv f s) (\<lambda>_ s1. Done () (sleep 1 s1))
          else Done () (log LWarning s)
      | None \<Rightarrow> obind (handleCheckin srv f s) (\<lambda>_ s1. Done () (sleep 1 s1)))"

text \<open>What follows a successful sync: check-in, the balance timer, tasks, heartbeat.\<close>

definition after_sync :: "server \<Rightarrow> nat \<Rightarrow> client \<Rightarrow> unit outcome" where
  "after_sync srv f s =
     obind (maybe_checkin srv f s) (\<lambda>_ s1.
       (let s2 = set_interval (CheckPointJob (c_index s1)) (5 * 60 * 1000) s1 in
        obind (if AUTO_TASK (c_cfg s2) then handleTasks srv f s2 else Done () s2) (\<lambda>_ s3.
          if AUTO_MINING (c_cfg s3)
          then obind (handleHB srv f s3) (\<lambda>_ s4. Done () (set_interval (HeartBeatJob (c_index s4)) (60 * 1000) s4))
          else Done () s3)))"

text \<open>
  The part of \<open>runAccount\<close> after the proxy check: obtain a token, sync, and on success
  go on with \<open>after_sync\<close>.
\<close>

definition run_authenticated :: "server \<Rightarrow> nat \<Rightarrow> client \<Rightarrow> unit outcome" where
  "run_authenticated srv f s =
     (case run srv f (GetValidToken False) s of
        Some (RToken None, s1) \<Rightarrow> Done () s1
      | Some (RToken (Some tk), s1) \<Rightarrow>
          obind (handleSyncData srv f (s1\<lparr>c_token := Some tk\<rparr>)) (\<lambda>u s2.
            (let s3 = sleep 1 s2 in
             case u of
               Some ud \<Rightarrow> (if r_success ud then after_sync srv f s3 else Done () (log LError s3))
             | None \<Rightarrow> Done () (log LError s3)))
      | _ \<Rightarrow> Diverged)"

text \<open>
  \<open>runAccount\<close>: load \<open>authInfo\<close> from the in-memory \<open>localStorage\<close> (or \<open>{}\<close>), take
  its field \<open>token\<close> as the current token, check the proxy when proxies are used (a
  failure ends the run) and wait the random start delay \<open>delay\<close>, then
  \<open>run_authenticated\<close>.
\<close>

definition runAccount :: "server \<Rightarrow> nat \<Rightarrow> nat \<Rightarrow> client \<Rightarrow> unit outcome" where
  "runAccount srv f delay s =
     (let ai = (case c_local s (c_address s) of Some a \<Rightarrow> a | None \<Rightarrow> empty_auth);
          s0 = s\<lparr>c_session := c_address s, c_auth := ai, c_token := ai_token ai\<rparr> in
      if USE_PROXY (c_cfg s0) then
        (case checkProxyIP srv s0 of
           (None, s1) \<Rightarrow> Done () (log LWarning s1)
         | (Some ip, s1) \<Rightarrow> run_authenticated srv f (sleep delay (log LInfo (s1\<lparr>c_proxy_ip := ip\<rparr>))))
      else run_authenticated srv f s0)"

subsection \<open>Observations on runs\<close>

text \<open>
  \<open>ext_out s x\<close>: a handler result \<open>x\<close> started in \<open>s\<close> only appended to the trace;
  \<open>settles r\<close>: the pipeline does not retry the answer \<open>r\<close> (a response, or a 400);
  \<open>first_request_is s s' P\<close>: the first HTTP request made between \<open>s\<close> and \<open>s'\<close>
  satisfies \<open>P\<close>.
\<close>

definition ext_out :: "client \<Rightarrow> 'a outcome \<Rightarrow> bool" where
  "ext_out s x = (case x of Done _ s' \<Rightarrow> trace_ext s s' | Thrown _ s' \<Rightarrow> trace_ext s s' | Diverged \<Rightarrow> True)"

definition settles :: "http_result \<Rightarrow> bool" where
  "settles r = (case r of HOk _ _ \<Rightarrow> True | HErr st _ \<Rightarrow> st = Some 400)"

definition first_request_is :: "client \<Rightarrow> client \<Rightarrow> (request \<Rightarrow> bool) \<Rightarrow> bool" where
  "first_request_is s s' P \<longleftrightarrow>
     (\<exists>rq rest. http_requests (w_events s') = http_requests (w_events s) @ rq # rest \<and> P rq)"

subsection \<open>Concrete servers and accounts\<close>

text \<open>
  Inputs at which the theorems below are evaluated: the daily check-in task, an API that
  answers every endpoint successfully, an account whose persisted session holds the
  tokens of a login (\<open>stored_client\<close>), and a task list with one task already claimed.
\<close>

definition daily_open :: task where
  "daily_open = \<lparr>taskId = 1, title = ''Daily check-in'', tstatus = 0\<rparr>"

definition api_server :: "auth_info \<Rightarrow> task list \<Rightarrow> server" where
  "api_server toks ts i rq =
     (case rq_endpoint rq of
        EpLogin \<Rightarrow> HOk 200 (BAuth toks)
      | EpRefresh \<Rightarrow> HOk 200 (BAuth toks)
      | EpProfile \<Rightarrow> HOk 200 BProfile
      | EpPointInfo \<Rightarrow> HOk 200 BPoints
      | EpTasksDaily \<Rightarrow> HOk 200 (BTasks [daily_open])
      | EpTasks \<Rightarrow> HOk 200 (BTasks ts)
      | EpIpify \<Rightarrow> HOk 200 (BIp ''203.0.113.7'')
      | _ \<Rightarrow> HOk 200 (BCode (Some 200)))"

definition stored_client :: client where
  "stored_client = demo_client\<lparr>c_local := [''A1'' \<mapsto> demo_tokens]\<rparr>"

definition task_a :: task where "task_a = \<lparr>taskId = 11, title = ''Follow on X'', tstatus = 0\<rparr>"

definition task_b :: task where "task_b = \<lparr>taskId = 12, title = ''Join Discord'', tstatus = 1\<rparr>"

definition task_c :: task where "task_c = \<lparr>taskId = 13, title = ''Retweet'', tstatus = 0\<rparr>"

definition tasks_server :: server where
  "tasks_server i rq =
     (case rq_endpoint rq of
        EpTasks \<Rightarrow> HOk 200 (BTasks [task_a, task_b, task_c])
      | EpCompleteTask n \<Rightarrow> (if n = 11 then HErr (Some 400) ''already claimed'' else HOk 200 (BCode (Some 200)))
      | _ \<Rightarrow> HErr None ''timeout'')"

subsection \<open>Handler lemmas\<close>

text \<open>
  How \<open>obind\<close> composes, what a request leaves unchanged (the session, the
  configuration, the timers), that a failed request carries no data, that every handler
  only extends the trace, which request a token acquisition makes first, and the
  evaluation bundles \<open>eval_simps\<close> and \<open>account_simps\<close>.
\<close>

lemma obind_simps [simp]:
  "obind (Done v s) k = k v s" "obind (Thrown e s) k = Thrown e s" "obind Diverged k = Diverged"
  by (simp_all add: obind_def)

lemma obind_Done_iff:
  "obind x k = Done v s' \<longleftrightarrow> (\<exists>u s1. x = Done u s1 \<and> k u s1 = Done v s')"
  by (cases x) auto

lemma obind_DoneE:
  assumes "obind x k = Done v s'"
  obtains u s1 where "x = Done u s1" "k u s1 = Done v s'"
  using assms by (cases x) auto

lemma obind_Done_final: "obind x (\<lambda>_ s3. Done () (g s3)) = Done u s1 \<Longrightarrow> \<exists>s3. s1 = g s3"
  by (cases x) auto

lemma run_frame:
  "run srv f c s = Some (r, s') \<Longrightarrow>
   c_auth s' = c_auth s \<and> c_session s' = c_session s \<and> c_cfg s' = c_cfg s \<and> c_index s' = c_index s \<and>
   c_address s' = c_address s \<and> c_local s' = c_local s \<and> w_intervals s' = w_intervals s"
proof (induction f arbitrary: c s r s')
  case 0
  then show ?case by simp
next
  case (Suc f)
  show ?case
  proof (cases c)
    case (Loop rq ep m pl opts cur)
    with Suc show ?thesis
      by (auto simp: run_Loop Let_def effect_defs split: http_result.splits if_splits option.splits ret.splits
          dest!: Suc.IH)
  qed (use Suc in \<open>auto simp: run_steps effect_defs split: if_splits option.splits ret.splits dest!: Suc.IH\<close>)
qed

lemma run_resp_shape:
  "run srv f c s = Some (RResp r, s') \<Longrightarrow> (r_data r = None) = (\<not> r_success r)"
proof (induction f arbitrary: c s r s')
  case 0
  then show ?case by simp
next
  case (Suc f)
  show ?case
  proof (cases c)
    case (Loop rq ep m pl opts cur)
    with Suc show ?thesis
      by (auto simp: run_Loop Let_def ok_resp_def fail_resp_def
          split: http_result.splits if_splits option.splits ret.splits dest!: Suc.IH)
  qed (use Suc in \<open>auto simp: run_steps split: if_splits option.splits ret.splits dest!: Suc.IH\<close>)
qed

lemma req_fail_data: "req srv f c s = Done r s' \<Longrightarrow> \<not> r_success r \<Longrightarrow> r_data r = None"
  by (auto simp: req_def split: option.splits ret.splits dest!: run_resp_shape)

lemma req_frame:
  "req srv f c s = Done r s' \<Longrightarrow>
   c_auth s' = c_auth s \<and> c_session s' = c_session s \<and> c_cfg s' = c_cfg s \<and> c_index s' = c_index s \<and>
   c_address s' = c_address s \<and> c_local s' = c_local s \<and> w_intervals s' = w_intervals s"
  by (auto simp: req_def split: option.splits ret.splits dest!: run_frame)

lemma sync_loop_once: "sync_loop srv f n s = req srv f getUserData s"
  by (cases "req srv f getUserData s") auto

lemma trace_ext_client_updates [simp]:
  "trace_ext s (s'\<lparr>c_auth := a\<rparr>) = trace_ext s s'" "trace_ext s (s'\<lparr>c_proxy_ip := p\<rparr>) = trace_ext s s'"
  "trace_ext s (s'\<lparr>c_session := k\<rparr>) = trace_ext s s'"
  "trace_ext (s\<lparr>c_auth := a\<rparr>) s' = trace_ext s s'" "trace_ext (s\<lparr>c_proxy_ip := p\<rparr>) s' = trace_ext s s'"
  "trace_ext (s\<lparr>c_session := k, c_auth := a, c_token := t\<rparr>) s' = trace_ext s s'"
  by (simp_all add: trace_ext_def)

lemma trace_ext_set_interval [simp]: "trace_ext s (set_interval j p s)"
  by (auto simp: trace_ext_def set_interval_def)

lemma ext_out_intros:
  "trace_ext s s' \<Longrightarrow> ext_out s (Done v s')" "trace_ext s s' \<Longrightarrow> ext_out s (Thrown e s')"
  "ext_out s Diverged"
  by (simp_all add: ext_out_def)

lemma ext_out_left: "trace_ext s0 s \<Longrightarrow> ext_out s x \<Longrightarrow> ext_out s0 x"
  by (cases x) (auto simp: ext_out_def intro: trace_ext_trans)

lemma ext_out_obind:
  "ext_out s x \<Longrightarrow> (\<And>v s1. x = Done v s1 \<Longrightarrow> ext_out s1 (k v s1)) \<Longrightarrow> ext_out s (obind x k)"
  by (cases x) (auto simp: ext_out_def intro: ext_out_left[unfolded ext_out_def])

lemma req_ext: "ext_out s (req srv f c s)"
  by (auto simp: req_def ext_out_def split: option.splits ret.splits dest: run_trace_ext)

lemma req_ext': "trace_ext s s0 \<Longrightarrow> ext_out s (req srv f c s0)"
  using ext_out_left req_ext by blast

lemma complete_tasks_ext: "trace_ext s s0 \<Longrightarrow> ext_out s (complete_tasks srv f ts s0)"
proof (induction ts arbitrary: s s0)
  case Nil
  then show ?case by (simp add: ext_out_intros)
next
  case (Cons t ts)
  have "trace_ext s (log LInfo (sleep 1 s0))" using Cons.prems by (auto intro!: trace_ext_effects_right)
  then show ?case
    by (auto intro!: ext_out_obind req_ext' Cons.IH intro: trace_ext_effects_right)
qed

lemmas ext_rules = ext_out_obind req_ext' ext_out_intros complete_tasks_ext

lemma handleCheckin_ext: "ext_out s (handleCheckin srv f s)"
  unfolding handleCheckin_def
  by (auto simp: Let_def split: option.splits body.splits intro!: ext_rules trace_ext_effects_right)

lemma handleTasks_ext: "ext_out s (handleTasks srv f s)"
  unfolding handleTasks_def
  by (auto simp: Let_def split: option.splits body.splits intro!: ext_rules trace_ext_effects_right)

lemma handleSyncData_ext: "ext_out s (handleSyncData srv f s)"
  unfolding handleSyncData_def sync_loop_once
  by (auto intro!: ext_rules trace_ext_effects_right)

lemma handleHB_ext: "ext_out s (handleHB srv f s)"
  unfolding handleHB_def by (auto intro!: ext_rules trace_ext_effects_right)

lemma handlers_ext':
  "trace_ext s s0 \<Longrightarrow> ext_out s (handleCheckin srv f s0)"
  "trace_ext s s0 \<Longrightarrow> ext_out s (handleTasks srv f s0)"
  "trace_ext s s0 \<Longrightarrow> ext_out s (handleSyncData srv f s0)"
  "trace_ext s s0 \<Longrightarrow> ext_out s (handleHB srv f s0)"
  by (meson ext_out_left handleCheckin_ext handleTasks_ext handleSyncData_ext handleHB_ext)+

lemma after_sync_ext: "ext_out s (after_sync srv f s)"
  unfolding after_sync_def maybe_checkin_def
  by (auto simp: Let_def split: option.splits intro!: ext_rules handlers_ext' trace_ext_effects_right
      intro: trace_ext_trans[OF _ trace_ext_set_interval])

lemma run_authenticated_after:
  "run srv f (GetValidToken False) s = Some (RToken tko, s1) \<Longrightarrow> ext_out s1 (run_authenticated srv f s)"
  unfolding run_authenticated_def
  by (auto simp: Let_def split: option.splits intro!: ext_rules handlers_ext' ext_out_left[OF _ after_sync_ext]
      trace_ext_effects_right)

lemma client_fields_effects [simp]:
  "c_address (log ty s) = c_address s" "c_cfg (log ty s) = c_cfg s" "c_auth (log ty s) = c_auth s"
  "c_token (log ty s) = c_token s" "c_session (log ty s) = c_session s"
  "c_address (sleep n s) = c_address s" "c_cfg (sleep n s) = c_cfg s" "c_auth (sleep n s) = c_auth s"
  "c_token (sleep n s) = c_token s" "c_session (sleep n s) = c_session s"
  by (simp_all add: log_def sleep_def)

lemma first_request_trace: "first_request_is s s1 P \<Longrightarrow> trace_ext s1 s2 \<Longrightarrow> first_request_is s s2 P"
  by (force simp: first_request_is_def trace_ext_def)

lemma first_request_log: "first_request_is (log ty s) s' P \<Longrightarrow> first_request_is s s' P"
  by (simp add: first_request_is_def effect_simps)

lemma first_request_exec:
  "trace_ext (snd (exec_http srv rq s)) s' \<Longrightarrow> P rq \<Longrightarrow> first_request_is s s' P"
  by (force simp: first_request_is_def trace_ext_def effect_simps)

lemma run_Loop_from_exec:
  assumes "run srv (Suc f) (Loop rq ep m pl opts cur) s = Some (r, s')"
  shows "trace_ext (snd (exec_http srv rq s)) s'"
proof (cases "srv (w_calls s) rq")
  case (HOk st b)
  with assms show ?thesis by (auto simp: run_Loop_HOk)
next
  case (HErr est msg)
  consider "est = Some 401" | "est = Some 400" | "est \<noteq> Some 401 \<and> est \<noteq> Some 400" by blast
  then show ?thesis
  proof cases
    case 1
    with assms HErr obtain tk s3 where
      g: "run srv f (GetValidToken True) (log LInfo (log LWarning (snd (exec_http srv rq s)))) = Some (RToken tk, s3)" and
      mr: "run srv f (MakeRequest ep m pl opts) (s3\<lparr>c_token := tk\<rparr>) = Some (r, s')"
      by (auto simp: run_Loop_401 split: option.splits ret.splits)
    have "trace_ext (snd (exec_http srv rq s)) (log LInfo (log LWarning (snd (exec_http srv rq s))))"
      by (intro trace_ext_effects_right(3) trace_ext_refl)
    also have "trace_ext \<dots> s3" by (rule run_trace_ext[OF g])
    also have "trace_ext s3 s'" using run_trace_ext[OF mr] by simp
    finally show ?thesis .
  next
    case 2
    with assms HErr have "s' = log LError (log LWarning (snd (exec_http srv rq s)))"
      by (simp add: run_Loop_400)
    then show ?thesis by (simp, intro trace_ext_effects_right(3) trace_ext_refl)
  next
    case 3
    let ?s1 = "snd (exec_http srv rq s)"
    let ?s3 = "if est = Some 429 then sleep 60 (log LWarning (log LWarning ?s1)) else log LWarning ?s1"
    have e3: "trace_ext ?s1 ?s3"
      by (simp, intro conjI impI trace_ext_effects_right(2,3) trace_ext_refl)
    then have e4: "trace_ext ?s1 (sleep 5 ?s3)" by (rule trace_ext_effects_right)
    from assms HErr 3 have "s' = ?s3 \<or> s' = sleep 5 ?s3 \<or> run srv f (Loop rq ep m pl opts (Suc cur)) (sleep 5 ?s3) = Some (r, s')"
      by (auto simp: run_Loop_retry Let_def split: if_splits)
    with e3 e4 show ?thesis using run_trace_ext trace_ext_trans by blast
  qed
qed

lemma make_request_first:
  assumes "run srv f (MakeRequest ep m pl opts) s = Some (r, s')"
  shows "first_request_is s s' (\<lambda>rq. rq = mk_request ep m pl opts (c_token s))"
proof -
  from assms obtain f' where f: "f = Suc (Suc f')"
    by (cases f; cases "f - 1") (auto simp: run_MakeRequest)
  with assms have "run srv (Suc f') (Loop (mk_request ep m pl opts (c_token s)) ep m pl opts 0) s = Some (r, s')"
    by (simp add: run_MakeRequest)
  from run_Loop_from_exec[OF this] show ?thesis by (rule first_request_exec) simp
qed

lemma gvt_login_first:
  assumes "run srv f GvtLogin s = Some (r, s')"
  shows "first_request_is s s' (\<lambda>rq. rq_endpoint rq = EpLogin)"
proof -
  from assms obtain f' where f: "f = Suc (Suc f')"
    by (cases f; cases "f - 1") (auto simp: run_GvtLogin run_Auth)
  with assms obtain x s1 where
    a: "run srv f' (MakeRequest EpLogin POST (LoginBody (c_address s) (REF_CODE (c_cfg s)))
          (given_opts True None)) (log LWarning s) = Some (RResp x, s1)" and
    e: "s' = s1 \<or> s' = log LWarning s1 \<or> s' = saveJson (c_session s1) (body_auth (r_data x)) s1"
    by (auto simp: run_GvtLogin run_Auth split: option.splits ret.splits if_splits)
  from e have e': "trace_ext s1 s'" by auto
  from make_request_first[OF a] have "first_request_is (log LWarning s) s1 (\<lambda>rq. rq_endpoint rq = EpLogin)"
    by (auto simp: first_request_is_def mk_request_def)
  then have "first_request_is (log LWarning s) s' (\<lambda>rq. rq_endpoint rq = EpLogin)"
    using e' by (rule first_request_trace)
  then show ?thesis by (rule first_request_log)
qed

lemma gvt_no_token_first:
  assumes "c_token s = None" "run srv f (GetValidToken b) s = Some (r, s')"
  shows "first_request_is s s' (\<lambda>rq. rq_endpoint rq \<in> {EpRefresh, EpLogin})"
proof -
  have lg: "first_request_is s s' (\<lambda>rq. rq_endpoint rq \<in> {EpRefresh, EpLogin})"
    if "first_request_is s s' (\<lambda>rq. rq_endpoint rq = EpLogin)"
    using that by (auto simp: first_request_is_def)
  from assms obtain f' where f: "f = Suc f'" by (cases f) auto
  show ?thesis
  proof (cases "ai_refresh (c_auth s)")
    case None
    with assms f have "run srv f' GvtLogin (log LInfo s) = Some (r, s')" by (simp add: run_GetValidToken)
    then have "first_request_is (log LInfo s) s' (\<lambda>rq. rq_endpoint rq = EpLogin)" by (rule gvt_login_first)
    then have "first_request_is s s' (\<lambda>rq. rq_endpoint rq = EpLogin)" by (rule first_request_log)
    then show ?thesis by (rule lg)
  next
    case (Some rt)
    show ?thesis
    proof (cases "isTokenExpired (w_clock s) (Some rt)")
      case True
      with assms f Some have "run srv f' GvtLogin (log LInfo (log LInfo s)) = Some (r, s')"
        by (simp add: run_GetValidToken)
      then have "first_request_is (log LInfo (log LInfo s)) s' (\<lambda>rq. rq_endpoint rq = EpLogin)"
        by (rule gvt_login_first)
      then have "first_request_is (log LInfo s) s' (\<lambda>rq. rq_endpoint rq = EpLogin)" by (rule first_request_log)
      then have "first_request_is s s' (\<lambda>rq. rq_endpoint rq = EpLogin)" by (rule first_request_log)
      then show ?thesis by (rule lg)
    next
      case False
      with assms f Some obtain x s3 where
        g: "run srv f' GetRefereshToken (log LInfo (log LInfo s)) = Some (RResp x, s3)" and
        e: "s' = saveJson (c_session s3) (body_auth (r_data x)) s3 \<or> run srv f' GvtLogin s3 = Some (r, s')"
        by (auto simp: run_GetValidToken split: option.splits ret.splits)
      from e have e': "trace_ext s3 s'" by (auto dest: run_trace_ext)
      from g obtain f'' where f': "f' = Suc f''" by (cases f') auto
      with g Some have "run srv f'' (MakeRequest EpRefresh POST (RefreshBody (Some rt)) (given_opts False (Some rt)))
          (log LInfo (log LInfo s)) = Some (RResp x, s3)" by (simp add: run_GetRefereshToken)
      from make_request_first[OF this]
      have "first_request_is (log LInfo (log LInfo s)) s3 (\<lambda>rq. rq_endpoint rq \<in> {EpRefresh, EpLogin})"
        by (auto simp: first_request_is_def mk_request_def)
      then have "first_request_is (log LInfo (log LInfo s)) s' (\<lambda>rq. rq_endpoint rq \<in> {EpRefresh, EpLogin})"
        using e' by (rule first_request_trace)
      then have "first_request_is (log LInfo s) s' (\<lambda>rq. rq_endpoint rq \<in> {EpRefresh, EpLogin})"
        by (rule first_request_log)
      then show ?thesis by (rule first_request_log)
    qed
  qed
qed

lemmas eval_simps = req_def run.simps default_opts_def given_opts_def script_server_def mk_request_def
  build_auth_def effect_defs Let_def numeral_eq_Suc ok_resp_def fail_resp_def unwrap_body_def status_code_def
  demo_client_def

lemmas account_simps = runAccount_def run_authenticated_def run_steps run_Loop_HOk mk_request_def api_server_def
  given_opts_def default_opts_def build_auth_def ok_resp_def unwrap_body_def body_access_def body_auth_def
  empty_auth_def isTokenExpired_def handleSyncData_def sync_loop_once req_def getUserData_def getBalance_def
  after_sync_def maybe_checkin_def handleCheckin_def getDailyTasks_def checkin_def daily_open_def
  status_code_def js_nullish_def set_interval_def handleTasks_def getTasks_def tasks_to_complete_def
  handleHB_def hb_def effect_defs Let_def

lemma handleCheckin_latest:
  assumes "handleCheckin srv f s = Done u s1"
  shows "ai_latest (c_auth s1) = Some (w_clock s1) \<and> w_store s1 (c_session s1) = Some (c_auth s1)"
proof -
  from assms obtain s3 where "s1 = saveJson (c_session s3) ((c_auth s3)\<lparr>ai_latest := Some (w_clock s3)\<rparr>)
                   (s3\<lparr>c_auth := (c_auth s3)\<lparr>ai_latest := Some (w_clock s3)\<rparr>\<rparr>)"
    unfolding handleCheckin_def Let_def
    by (auto elim!: obind_DoneE split: option.splits body.splits dest!: obind_Done_final)
  then show ?thesis by (simp add: effect_defs)
qed

lemma req_settles:
  "settles (srv (w_calls s) (mk_request ep m pl opts (c_token s))) \<Longrightarrow>
   \<exists>c s'. req srv (Suc (Suc f)) (MakeRequest ep m pl opts) s = Done c s' \<and>
     http_requests (w_events s') = http_requests (w_events s) @ [mk_request ep m pl opts (c_token s)] \<and>
     c_token s' = c_token s"
  by (auto simp: settles_def req_def run_MakeRequest run_Loop_HOk run_Loop_400 effect_simps effect_defs
      split: http_result.splits)

lemma complete_tasks_settle:
  assumes "\<forall>t\<in>set ts. \<forall>i. settles (srv i (mk_request (EpCompleteTask (taskId t)) POST NoBody default_opts (c_token s)))"
  shows "\<exists>s'. complete_tasks srv (Suc (Suc f)) ts s = Done () s' \<and> c_token s' = c_token s \<and>
    http_requests (w_events s') =
      http_requests (w_events s) @ map (\<lambda>t. mk_request (EpCompleteTask (taskId t)) POST NoBody default_opts (c_token s)) ts"
  using assms
proof (induction ts arbitrary: s)
  case Nil
  then show ?case by simp
next
  case (Cons t ts)
  let ?s0 = "log LInfo (sleep 1 s)"
  from Cons.prems have "settles (srv (w_calls ?s0) (mk_request (EpCompleteTask (taskId t)) POST NoBody default_opts (c_token ?s0)))"
    by simp
  from req_settles[where srv = srv and s = ?s0 and ep = "EpCompleteTask (taskId t)" and m = POST
      and pl = NoBody and opts = default_opts and f = f, OF this] obtain c s1 where
    r: "req srv (Suc (Suc f)) (compleTask (taskId t)) ?s0 = Done c s1" and
    h: "http_requests (w_events s1) = http_requests (w_events s) @ [mk_request (EpCompleteTask (taskId t)) POST NoBody default_opts (c_token s)]" and
    k: "c_token s1 = c_token s"
    by (auto simp: compleTask_def effect_simps)
  let ?s2 = "if status_code (r_data c) = Some 200 then log LSuccess s1 else log LWarning s1"
  have "c_token ?s2 = c_token s" "http_requests (w_events ?s2) = http_requests (w_events s1)"
    using k by (simp_all add: effect_simps)
  moreover from Cons.prems k have "\<forall>t\<in>set ts. \<forall>i. settles (srv i (mk_request (EpCompleteTask (taskId t)) POST NoBody default_opts (c_token ?s2)))"
    by simp
  ultimately show ?case using Cons.IH[of ?s2] r h by auto
qed

lemma stored_account_rejected:
  assumes "c_local s (c_address s) = Some demo_tokens" "\<not> USE_PROXY (c_cfg s)" "w_clock s = 0"
  shows "\<exists>s'. runAccount (\<lambda>i rq. HErr (Some 400) ''bad request'') (Suc (Suc (Suc (Suc (Suc (Suc f)))))) d s =
    Done () s'"
  using assms by (simp add: account_simps run_Loop_400 demo_tokens_def fail_resp_def)

lemma stored_client_facts:
  "c_local stored_client (c_address stored_client) = Some demo_tokens" "\<not> USE_PROXY (c_cfg stored_client)"
  "w_clock stored_client = 0" "ai_token demo_tokens = None" "calls_inv stored_client" "w_events stored_client = []"
  by (simp_all add: stored_client_def demo_client_def demo_cfg_def demo_tokens_def calls_inv_def)

subsection \<open>Properties of the account workflow\<close>

text \<open>
  C9. A fresh account against an API that answers everything: \<open>runAccount\<close> logs in,
  reads profile and balance, reads the daily tasks and checks in, then lists the tasks and
  sends a heartbeat when those features are on, in this order. The session it persists
  under the address holds only \<open>latestCheckin\<close>: the access and refresh tokens that
  the login saved are overwritten by \<open>handleCheckin\<close>, which saves the stale
  \<open>authInfo\<close>.
\<close>

theorem fresh_account_scenario:
  assumes "c_local s (c_address s) = None" "\<not> USE_PROXY (c_cfg s)" "ai_access toks = Some tk"
  shows "\<exists>s' rqs. runAccount (api_server toks []) (Suc (Suc (Suc (Suc (Suc (Suc f)))))) d s = Done () s' \<and>
    http_requests (w_events s') = http_requests (w_events s) @ rqs \<and>
    map rq_endpoint rqs = [EpLogin, EpProfile, EpPointInfo, EpTasksDaily, EpCompleteDaily] @
       (if AUTO_TASK (c_cfg s) then [EpTasks] else []) @ (if AUTO_MINING (c_cfg s) then [EpBandwidth] else []) \<and>
    w_store s' (c_address s) = Some (empty_auth\<lparr>ai_latest := Some (w_clock s + 1000)\<rparr>)"
  using assms by (simp add: account_simps)

theorem fresh_account_scenario_witness:
  "\<exists>s' rqs. runAccount (api_server demo_tokens []) 6 0 demo_client = Done () s' \<and>
    http_requests (w_events s') = rqs \<and>
    map rq_endpoint rqs = [EpLogin, EpProfile, EpPointInfo, EpTasksDaily, EpCompleteDaily, EpTasks, EpBandwidth] \<and>
    w_store s' ''A1'' = Some (empty_auth\<lparr>ai_latest := Some 1000\<rparr>)"
  using fresh_account_scenario[where s = demo_client and toks = demo_tokens and tk = "Token 3 5000" and f = 0 and d = 0]
  by (simp add: demo_client_def demo_cfg_def demo_tokens_def numeral_eq_Suc)

text \<open>
  C10. A persisted session is never used for its access token: \<open>runAccount\<close> reads the
  field \<open>token\<close>, which no writer of the store sets, so when it is absent the first
  request of the run is a refresh or a login, whatever the stored access token.
\<close>

theorem stored_access_token_unused:
  assumes "\<not> USE_PROXY (c_cfg s)" "c_local s (c_address s) = Some ai" "ai_token ai = None"
    and out: "runAccount srv f d s = Done u s' \<or> runAccount srv f d s = Thrown e s'"
  shows "first_request_is s s' (\<lambda>rq. rq_endpoint rq \<in> {EpRefresh, EpLogin})"
proof -
  let ?s0 = "s\<lparr>c_session := c_address s, c_auth := ai, c_token := None\<rparr>"
  from assms have ra: "run_authenticated srv f ?s0 = Done u s' \<or> run_authenticated srv f ?s0 = Thrown e s'"
    by (simp add: runAccount_def)
  then obtain tko s1 where g: "run srv f (GetValidToken False) ?s0 = Some (RToken tko, s1)"
    by (auto simp: run_authenticated_def split: option.splits ret.splits)
  have "first_request_is ?s0 s1 (\<lambda>rq. rq_endpoint rq \<in> {EpRefresh, EpLogin})"
    using g by (intro gvt_no_token_first) simp_all
  moreover from run_authenticated_after[OF g] ra have "trace_ext s1 s'" by (auto simp: ext_out_def)
  ultimately have "first_request_is ?s0 s' (\<lambda>rq. rq_endpoint rq \<in> {EpRefresh, EpLogin})"
    by (rule first_request_trace)
  then show ?thesis by (simp add: first_request_is_def)
qed

theorem stored_access_token_unused_witness:
  "\<exists>s'. runAccount (\<lambda>i rq. HErr (Some 400) ''bad request'') 6 0 stored_client = Done () s' \<and>
     first_request_is stored_client s' (\<lambda>rq. rq_endpoint rq \<in> {EpRefresh, EpLogin})"
proof -
  obtain s' where r: "runAccount (\<lambda>i rq. HErr (Some 400) ''bad request'') 6 0 stored_client = Done () s'"
    using stored_account_rejected[OF stored_client_facts(1-3), of 0 0] by (auto simp: numeral_eq_Suc)
  with stored_client_facts stored_access_token_unused[of stored_client demo_tokens
      "\<lambda>i rq. HErr (Some 400) ''bad request''" 6 0 "()" s']
  show ?thesis by blast
qed

text \<open>
  C11. The check-in time is recorded whatever the check-in answer: when a daily task is
  open, \<open>handleCheckin\<close> sets \<open>latestCheckin\<close> to the time after the check-in
  request and saves it, also when that request failed.
\<close>

theorem checkin_time_unconditional:
  assumes d: "req srv f getDailyTasks (log LInfo s) = Done d s1" "r_data d = Some (BTasks ts)"
    and t: "find (\<lambda>t. tstatus t = 0) ts = Some t" and c: "req srv f checkin s1 = Done c s2"
  shows "\<exists>s3. handleCheckin srv f s = Done () s3 \<and> c_auth s3 = (c_auth s)\<lparr>ai_latest := Some (w_clock s2)\<rparr> \<and>
    w_store s3 (c_session s) = Some ((c_auth s)\<lparr>ai_latest := Some (w_clock s2)\<rparr>)"
proof -
  from req_frame[OF d(1)] req_frame[OF c] have "c_auth s2 = c_auth s" "c_session s2 = c_session s" by simp_all
  with d t c show ?thesis by (auto simp: handleCheckin_def Let_def effect_defs)
qed

theorem checkin_time_unconditional_witness:
  "\<exists>s3. handleCheckin (script_server [HOk 200 (BTasks [daily_open]), HErr (Some 500) ''down'',
        HErr (Some 500) ''down'', HErr (Some 500) ''down'']) 5 demo_client = Done () s3 \<and>
     c_auth s3 = empty_auth\<lparr>ai_latest := Some 15000\<rparr> \<and> w_store s3 ''A1'' = Some (empty_auth\<lparr>ai_latest := Some 15000\<rparr>)"
proof -
  let ?srv = "script_server [HOk 200 (BTasks [daily_open]), HErr (Some 500) ''down'', HErr (Some 500) ''down'',
    HErr (Some 500) ''down'']"
  have "\<exists>d s1. req ?srv 5 getDailyTasks (log LInfo demo_client) = Done d s1 \<and> r_data d = Some (BTasks [daily_open]) \<and>
      (\<exists>c s2. req ?srv 5 checkin s1 = Done c s2 \<and> w_clock s2 = 15000)"
    by (simp add: eval_simps getDailyTasks_def checkin_def)
  then obtain d s1 c s2 where "req ?srv 5 getDailyTasks (log LInfo demo_client) = Done d s1"
    "r_data d = Some (BTasks [daily_open])" "req ?srv 5 checkin s1 = Done c s2" "w_clock s2 = 15000"
    by blast
  with checkin_time_unconditional[of ?srv 5 demo_client d s1 "[daily_open]" daily_open c s2] show ?thesis
    by (simp add: daily_open_def demo_client_def)
qed

text \<open>
  C12. No second check-in within 24 hours: after \<open>handleCheckin\<close> returned, the
  check-in decision of \<open>runAccount\<close> at any time up to 24 hours later makes no request
  and only logs a warning.
\<close>

theorem checkin_idempotent_24h:
  assumes "handleCheckin srv f s = Done u s1" "d \<le> 24 * 60 * 60 * 1000"
  shows "maybe_checkin srv g (s1\<lparr>w_clock := w_clock s1 + d\<rparr>) = Done () (log LWarning (s1\<lparr>w_clock := w_clock s1 + d\<rparr>))"
  using handleCheckin_latest[OF assms(1)] assms(2) by (simp add: maybe_checkin_def checkInvaliable_def)

theorem checkin_idempotent_24h_witness:
  "\<exists>s1. handleCheckin (script_server [HOk 200 (BTasks [daily_open]), HOk 200 (BCode (Some 200))]) 4 demo_client = Done () s1 \<and>
     maybe_checkin (script_server [HOk 200 (BTasks [daily_open]), HOk 200 (BCode (Some 200))]) 4 (s1\<lparr>w_clock := w_clock s1 + 3600000\<rparr>) =
       Done () (log LWarning (s1\<lparr>w_clock := w_clock s1 + 3600000\<rparr>))"
proof -
  obtain s1 where h: "handleCheckin (script_server [HOk 200 (BTasks [daily_open]), HOk 200 (BCode (Some 200))]) 4 demo_client = Done () s1"
    by (simp add: handleCheckin_def eval_simps getDailyTasks_def checkin_def daily_open_def)
  show ?thesis using h checkin_idempotent_24h[OF h, where d = 3600000 and g = 4] by simp
qed

text \<open>
  C13. The profile request of \<open>handleSyncData\<close> is never repeated: its
  \<open>do \<dots> while (retries < 1 \<and> status \<noteq> 400)\<close> loop increments the counter before the
  test, so a failed answer other than 400 ends the loop after the first attempt.
\<close>

theorem sync_no_retry:
  assumes "req srv f getUserData s = Done u s1" "\<not> r_success u" "r_status u \<noteq> Some 400"
  shows "sync_loop srv f 0 s = Done u s1"
  by (subst sync_loop.simps) (simp add: assms)

theorem sync_no_retry_witness:
  "\<exists>u s1. req (script_server []) 4 getUserData demo_client = Done u s1 \<and> \<not> r_success u \<and>
     sync_loop (script_server []) 4 0 demo_client = Done u s1"
proof -
  obtain s1 where r: "req (script_server []) 4 getUserData demo_client = Done (fail_resp None ''timeout'') s1"
    by (simp add: eval_simps getUserData_def)
  have "r_status (fail_resp None ''timeout'') \<noteq> Some 400" "\<not> r_success (fail_resp None ''timeout'')"
    by (simp_all add: fail_resp_def)
  with r show ?thesis using sync_no_retry[OF r] by blast
qed

text \<open>
  C14. Task completion is attempted for every pending task, in order: when the task list
  is read and every completion answer is a response or a 400, \<open>handleTasks\<close> sends one
  completion request per task that is neither done nor skipped, in list order, and a
  rejected task does not stop the loop.
\<close>

theorem handleTasks_attempts_all:
  assumes "req srv (Suc (Suc f)) getTasks (log LInfo s) = Done d s1" "r_success d" "r_data d = Some (BTasks ts)"
    "tasks_to_complete (c_cfg s) ts \<noteq> []"
    "\<forall>t\<in>set ts. \<forall>i. settles (srv i (mk_request (EpCompleteTask (taskId t)) POST NoBody default_opts (c_token s1)))"
  shows "\<exists>s'. handleTasks srv (Suc (Suc f)) s = Done () s' \<and>
    http_requests (w_events s') = http_requests (w_events s1) @
      map (\<lambda>t. mk_request (EpCompleteTask (taskId t)) POST NoBody default_opts (c_token s1)) (tasks_to_complete (c_cfg s) ts)"
proof -
  have cfg: "c_cfg s1 = c_cfg s" using req_frame[OF assms(1)] by simp
  have "\<forall>t\<in>set (tasks_to_complete (c_cfg s) ts). \<forall>i.
      settles (srv i (mk_request (EpCompleteTask (taskId t)) POST NoBody default_opts (c_token s1)))"
    using assms(5) by (simp add: tasks_to_complete_def)
  from complete_tasks_settle[OF this, of f] assms cfg show ?thesis
    by (auto simp: handleTasks_def)
qed

theorem handleTasks_attempts_all_witness:
  "\<exists>s'. handleTasks tasks_server 4 demo_client = Done () s' \<and>
     map rq_endpoint (http_requests (w_events s')) = [EpTasks, EpCompleteTask 11, EpCompleteTask 13]"
proof -
  have "\<exists>d s1. req tasks_server 4 getTasks (log LInfo demo_client) = Done d s1 \<and> r_success d \<and>
      r_data d = Some (BTasks [task_a, task_b, task_c]) \<and> c_token s1 = None \<and>
      map rq_endpoint (http_requests (w_events s1)) = [EpTasks]"
    by (simp add: eval_simps getTasks_def tasks_server_def)
  then obtain d s1 where r: "req tasks_server (Suc (Suc 2)) getTasks (log LInfo demo_client) = Done d s1"
    "r_success d" "r_data d = Some (BTasks [task_a, task_b, task_c])" "c_token s1 = None"
    "map rq_endpoint (http_requests (w_events s1)) = [EpTasks]"
    by (auto simp: numeral_eq_Suc)
  have "tasks_to_complete (c_cfg demo_client) [task_a, task_b, task_c] = [task_a, task_c]"
    by (simp add: tasks_to_complete_def task_a_def task_b_def task_c_def demo_client_def demo_cfg_def)
  moreover have "\<forall>t\<in>set [task_a, task_b, task_c]. \<forall>i. settles (tasks_server i
      (mk_request (EpCompleteTask (taskId t)) POST NoBody default_opts (c_token s1)))"
    by (simp add: settles_def tasks_server_def mk_request_def task_a_def task_b_def task_c_def)
  ultimately show ?thesis
    using handleTasks_attempts_all[OF r(1-3)] r(4,5) by (auto simp: task_a_def task_c_def mk_request_def numeral_eq_Suc)
qed

text \<open>
  C15. A failed daily-task request crashes the check-in: \<open>handleCheckin\<close> reads
  \<open>data.find\<close> of the failed answer, whose data is \<open>null\<close>, and throws a
  \<open>TypeError\<close> that nothing catches.
\<close>

theorem checkin_daily_failure_throws:
  assumes "req srv f getDailyTasks (log LInfo s) = Done d s1" "\<not> r_success d"
  shows "handleCheckin srv f s = Thrown TypeError s1"
  using assms req_fail_data[OF assms] by (simp add: handleCheckin_def)

theorem checkin_daily_failure_throws_witness:
  "\<exists>s1. handleCheckin (script_server []) 4 demo_client = Thrown TypeError s1"
proof -
  have "\<exists>d s1. req (script_server []) 4 getDailyTasks (log LInfo demo_client) = Done d s1 \<and> \<not> r_success d"
    by (simp add: eval_simps getDailyTasks_def)
  then obtain d s1 where "req (script_server []) 4 getDailyTasks (log LInfo demo_client) = Done d s1" "\<not> r_success d"
    by blast
  then show ?thesis using checkin_daily_failure_throws by blast
qed

text \<open>
  C16. A failed task-list request raises a \<open>ReferenceError\<close>: the guard of
  \<open>handleTasks\<close> reads the undeclared variable \<open>dailytasks\<close>.
\<close>

theorem tasks_failure_reference_error:
  assumes "req srv f getTasks (log LInfo s) = Done d s1" "\<not> r_success d"
  shows "handleTasks srv f s = Thrown ReferenceError s1"
  using assms by (simp add: handleTasks_def)

theorem tasks_failure_reference_error_witness:
  "\<exists>s1. handleTasks (script_server []) 4 demo_client = Thrown ReferenceError s1"
proof -
  have "\<exists>d s1. req (script_server []) 4 getTasks (log LInfo demo_client) = Done d s1 \<and> \<not> r_success d"
    by (simp add: eval_simps getTasks_def)
  then obtain d s1 where "req (script_server []) 4 getTasks (log LInfo demo_client) = Done d s1" "\<not> r_success d"
    by blast
  then show ?thesis using tasks_failure_reference_error by blast
qed

text \<open>
  C17. A proxy that fails the IP check ends the account's run: \<open>runAccount\<close> makes the one
  request to the IP echo service, logs, and returns without any request to the API and
  without writing the store.
\<close>

theorem proxy_failure_stops:
  assumes "USE_PROXY (c_cfg s)" "\<forall>b. srv (w_calls s) ipify_request \<noteq> HOk 200 b"
  shows "\<exists>s'. runAccount srv f d s = Done () s' \<and>
    http_requests (w_events s') = http_requests (w_events s) @ [ipify_request] \<and> w_store s' = w_store s"
  using assms
  by (cases "srv (w_calls s) ipify_request")
     (auto simp: runAccount_def checkProxyIP_def effect_defs Let_def)

theorem proxy_failure_stops_witness:
  "\<exists>s'. runAccount (script_server [HErr None ''ECONNREFUSED'']) 6 0
      (demo_client\<lparr>c_cfg := demo_cfg\<lparr>USE_PROXY := True\<rparr>\<rparr>) = Done () s' \<and>
    http_requests (w_events s') = [ipify_request] \<and> w_store s' = Map.empty"
  using proxy_failure_stops[of "demo_client\<lparr>c_cfg := demo_cfg\<lparr>USE_PROXY := True\<rparr>\<rparr>"
      "script_server [HErr None ''ECONNREFUSED'']" 6 0]
  by (simp add: demo_client_def script_server_def)

end
