(* ===== verification/Spec2Isabelle.thy ===== *)
theory Spec2Isabelle
  imports Supervisor
begin

text \<open>
  \<^bold>\<open>A verification model of the Flow3 account runner.\<close>

  The program (\<open>src/main.js\<close>, with the registration script \<open>src/autoref.js\<close>) drives
  many wallet accounts against one remote rewards API. \<open>main\<close> loads the keys, proxies
  and the persisted sessions (\<open>localStorage.json\<close>), splits the accounts into batches of
  \<open>MAX_THEADS\<close> and runs \<open>ClientAPI.runAccount\<close> for the accounts of a batch
  concurrently, waiting for the whole batch before the next one. \<open>runAccount\<close> resolves
  the proxy, obtains a token (\<open>getValidToken\<close>), syncs profile and balance, does the
  daily check-in, completes tasks and starts the periodic balance and heartbeat timers.
  Every request goes through \<open>makeRequest\<close>, which retries, backs off, and on a 401
  refreshes the token through \<open>getValidToken(true)\<close> and sends the request again.

  \<^bold>\<open>Theories.\<close>
  \<^item> \<open>Prelude\<close>: the JavaScript comparisons with \<open>undefined\<close> the retry loop uses,
    shared list lemmas, the collection \<open>effect_simps\<close>.
  \<^item> \<open>Http\<close>: tokens, the persisted session object \<open>auth_info\<close>, requests, answers,
    bodies, the observable events and the world record (HTTP call counter, clock in ms,
    event trace, the store written by \<open>saveJson\<close>, the global \<open>intervalIds\<close>). The
    remote API is a parameter \<open>srv :: nat \<Rightarrow> request \<Rightarrow> http_result\<close>: the answer to
    the i-th call; every theorem quantified over \<open>srv\<close> holds for every server.
    Effects: \<open>exec_http\<close> (one axios call), \<open>sleep\<close>, \<open>log\<close>, \<open>saveJson\<close>. The
    invariant \<open>calls_inv\<close> ties the counter to the trace.
  \<^item> \<open>Session\<close>: the \<open>ClientAPI\<close> object as record \<open>client\<close> (extending the world),
    and \<open>makeRequest\<close>, its retry loop, \<open>getValidToken\<close>, its login fallback,
    \<open>auth\<close> and \<open>getRefereshToken\<close> as the operations of one interpreter \<open>run\<close>
    with fuel (they are mutually recursive through the 401 path, with no bound in the
    source); the endpoint wrappers (\<open>hb\<close>, \<open>getBalance\<close>, \<dots>) as \<open>call\<close> values.

  \<^bold>\<open>Fuel.\<close> \<open>run srv f c s = None\<close> means "has not returned within \<open>f\<close> nested calls
  and loop iterations". C8 shows \<open>call_fuel c\<close> is enough whenever the server never
  answers 401 (the retry loop of a budget \<open>k\<close> needs \<open>k + 1\<close>, a token acquisition 5);
  C9 shows more fuel never changes a result; C7 shows that a server answering 401
  forever makes the source recurse without end, so there no fuel is enough.

  \<^bold>\<open>What the theorems show.\<close> C1 to C4: the fast path of \<open>getValidToken\<close> makes no call;
  the refresh path makes one refresh call and no login; a 401 causes one refresh and one
  repeated request; a 400 is returned at once. C5, C6: the retry budget, counted exactly,
  and the requests whose options object leaves it undefined. C7 to C10: divergence on
  repeated 401, termination otherwise, fuel irrelevance, the call accounting invariant.

  \<^bold>\<open>Not modelled (yet).\<close> Message signing and key decoding (\<open>tweetnacl\<close>, \<open>bs58\<close>):
  the login body carries the address and referral code only. HTTP headers other than
  \<open>Authorization\<close>, proxies' transport, the user agent file, console formatting.
  \<open>utils.js\<close> and \<open>config.js\<close> are not in the repository: \<open>sleep\<close>, \<open>saveJson\<close>,
  \<open>isTokenExpired\<close> and \<open>settings\<close> are modelled from the specification.

  \<^bold>\<open>Plan.\<close> Next: the task supervisor (\<open>runAccount\<close>, \<open>handleSyncData\<close>,
  \<open>handleCheckin\<close>, \<open>handleTasks\<close>, \<open>handleHB\<close>, \<open>handleCheckPoint\<close>) in a theory
  \<open>Supervisor\<close>; then the batch scheduler and the timers as a step relation over
  interleaved accounts in \<open>Scheduler\<close>; then the registration script.
\<close>

end
